theory Spec2Isabelle
  imports Complex_Main
begin

section \<open>Values, errors and matrices\<close>

text \<open>
  The module \<^verbatim>\<open>neuralnet.py\<close> is numpy code. Its finite floating-point numbers are
  idealised as reals; the exceptional IEEE values that \<^verbatim>\<open>np.log\<close> and a division
  can produce are kept apart in \<open>fval\<close>. The exceptions the code can raise are
  the constructors of \<open>error\<close>.
\<close>

datatype error = ValueError | IndexError | ZeroDivisionError | TypeError | NameError

datatype fval = Fin real | PInf | NInf | NaN

text \<open>
  A two-dimensional numpy array (\<^verbatim>\<open>np.matrix\<close>): its rows, and the column count, which
  numpy keeps even when there is no row.
\<close>

datatype 'a mat = Mat (ncols: nat) (mrows: "'a list list")

definition nrows :: "'a mat \<Rightarrow> nat" where
  "nrows A = length (mrows A)"

definition wf_mat :: "'a mat \<Rightarrow> bool" where
  "wf_mat A = list_all (\<lambda>r. length r = ncols A) (mrows A)"

definition map_mat :: "('a \<Rightarrow> 'b) \<Rightarrow> 'a mat \<Rightarrow> 'b mat" where
  "map_mat f A = Mat (ncols A) (map (map f) (mrows A))"

text \<open>Entry \<open>(i, j)\<close> of a matrix, for stating properties.\<close>

definition ent :: "'a mat \<Rightarrow> nat \<Rightarrow> nat \<Rightarrow> 'a" where
  "ent A i j = mrows A ! i ! j"

subsection \<open>Reshaping and flattening\<close>

text \<open>\<^verbatim>\<open>np.reshape(v, (r, c))\<close> in row-major order: it raises ValueError unless \<open>v\<close> has \<open>r * c\<close> entries.\<close>

fun chop :: "nat \<Rightarrow> nat \<Rightarrow> 'a list \<Rightarrow> 'a list list" where
  "chop 0 c v = []"
| "chop (Suc r) c v = take c v # chop r c (drop c v)"

definition np_reshape :: "'a list \<Rightarrow> nat \<Rightarrow> nat \<Rightarrow> error + 'a mat" where
  "np_reshape v r c = (if length v = r * c then Inr (Mat c (chop r c v)) else Inl ValueError)"

text \<open>\<^verbatim>\<open>np.ravel\<close>: the entries in row-major order.\<close>

definition np_ravel :: "'a mat \<Rightarrow> 'a list" where
  "np_ravel A = concat (mrows A)"

section \<open>The network instance\<close>

text \<open>
  What the writer object has been given through \<^verbatim>\<open>write\<close>: a cost or a status line.
\<close>

datatype written = WCost fval | WMsg string

record neuralnet =
  net_X :: "real mat"
  net_Y :: "real mat"
  num_labels :: nat
  input_size :: nat
  hidden_size :: nat
  lam :: real
  net_output :: string
  params :: "real list"
  maxiter :: nat
  writer :: "written list"

definition set_params :: "neuralnet \<Rightarrow> real list \<Rightarrow> neuralnet" where
  "set_params self ps = self\<lparr>params := ps\<rparr>"

text \<open>The length of the flat parameter vector the architecture asks for (\<^verbatim>\<open>generate_params\<close>).\<close>

definition params_size :: "neuralnet \<Rightarrow> nat" where
  "params_size self =
     hidden_size self * (input_size self + 1) + num_labels self * (hidden_size self + 1)"

definition reshape_theta :: "neuralnet \<Rightarrow> real list \<Rightarrow> error + (real mat \<times> real mat)" where
  "reshape_theta self ps =
     (case np_reshape (take (hidden_size self * (input_size self + 1)) ps)
             (hidden_size self) (input_size self + 1) of
        Inl e \<Rightarrow> Inl e
      | Inr theta1 \<Rightarrow>
          (case np_reshape (drop (hidden_size self * (input_size self + 1)) ps)
                  (num_labels self) (hidden_size self + 1) of
             Inl e \<Rightarrow> Inl e
           | Inr theta2 \<Rightarrow> Inr (theta1, theta2)))"

text \<open>
  The flattening at the end of \<^verbatim>\<open>fit\<close>:
  \<^verbatim>\<open>np.concatenate((np.ravel(delta1), np.ravel(delta2)))\<close>.
\<close>

definition flatten :: "'a mat \<Rightarrow> 'a mat \<Rightarrow> 'a list" where
  "flatten A B = np_ravel A @ np_ravel B"

section \<open>numpy operations\<close>

subsection \<open>Arithmetic on floating-point values\<close>

text \<open>
  IEEE arithmetic on \<open>fval\<close>: finite values behave as reals, \<open>log 0\<close> is \<open>-inf\<close>,
  the logarithm of a negative number is \<open>nan\<close>, \<open>0 * inf\<close> and \<open>inf - inf\<close> are \<open>nan\<close>,
  and \<open>nan\<close> propagates.
\<close>

definition fv_log :: "real \<Rightarrow> fval" where
  "fv_log x = (if 0 < x then Fin (ln x) else if x = 0 then NInf else NaN)"

fun fv_neg :: "fval \<Rightarrow> fval" where
  "fv_neg (Fin a) = Fin (- a)"
| "fv_neg PInf = NInf"
| "fv_neg NInf = PInf"
| "fv_neg NaN = NaN"

fun fv_add :: "fval \<Rightarrow> fval \<Rightarrow> fval" where
  "fv_add NaN _ = NaN"
| "fv_add _ NaN = NaN"
| "fv_add (Fin a) (Fin b) = Fin (a + b)"
| "fv_add PInf NInf = NaN"
| "fv_add NInf PInf = NaN"
| "fv_add PInf _ = PInf"
| "fv_add _ PInf = PInf"
| "fv_add NInf _ = NInf"
| "fv_add _ NInf = NInf"

definition fv_sub :: "fval \<Rightarrow> fval \<Rightarrow> fval" where
  "fv_sub x y = fv_add x (fv_neg y)"

text \<open>An infinity with the sign of \<open>a\<close>; \<open>nan\<close> when \<open>a\<close> is zero.\<close>

definition signed_inf :: "real \<Rightarrow> fval" where
  "signed_inf a = (if a = 0 then NaN else if 0 < a then PInf else NInf)"

fun fv_mul :: "fval \<Rightarrow> fval \<Rightarrow> fval" where
  "fv_mul NaN _ = NaN"
| "fv_mul _ NaN = NaN"
| "fv_mul (Fin a) (Fin b) = Fin (a * b)"
| "fv_mul (Fin a) PInf = signed_inf a"
| "fv_mul (Fin a) NInf = signed_inf (- a)"
| "fv_mul PInf (Fin b) = signed_inf b"
| "fv_mul NInf (Fin b) = signed_inf (- b)"
| "fv_mul PInf PInf = PInf"
| "fv_mul NInf NInf = PInf"
| "fv_mul PInf NInf = NInf"
| "fv_mul NInf PInf = NInf"

text \<open>Division of a numpy float by the Python integer \<open>m\<close> (no exception: numpy only warns).\<close>

fun fv_div_nat :: "fval \<Rightarrow> nat \<Rightarrow> fval" where
  "fv_div_nat (Fin a) m = (if m = 0 then signed_inf a else Fin (a / real m))"
| "fv_div_nat v m = v"

definition np_sum :: "fval mat \<Rightarrow> fval" where
  "np_sum A = foldr fv_add (concat (mrows A)) (Fin 0)"

definition np_sum_r :: "real mat \<Rightarrow> real" where
  "np_sum_r A = sum_list (concat (mrows A))"

subsection \<open>Elementwise operations with broadcasting\<close>

text \<open>
  numpy's broadcasting rule for one axis: equal lengths, or one of them is 1 and is
  stretched to the other; anything else raises ValueError.
\<close>

definition bc_dim :: "nat \<Rightarrow> nat \<Rightarrow> nat option" where
  "bc_dim a b = (if a = b then Some a else if a = 1 then Some b else if b = 1 then Some a else None)"

definition stretch :: "nat \<Rightarrow> 'a list \<Rightarrow> 'a list" where
  "stretch n xs = (if length xs = n then xs else replicate n (hd xs))"

definition np_broadcast2 :: "('a \<Rightarrow> 'b \<Rightarrow> 'c) \<Rightarrow> 'a mat \<Rightarrow> 'b mat \<Rightarrow> error + 'c mat" where
  "np_broadcast2 f A B =
     (case bc_dim (nrows A) (nrows B) of
        None \<Rightarrow> Inl ValueError
      | Some r \<Rightarrow>
          (case bc_dim (ncols A) (ncols B) of
             None \<Rightarrow> Inl ValueError
           | Some c \<Rightarrow>
               Inr (Mat c (map2 (\<lambda>a b. map2 f (stretch c a) (stretch c b))
                             (stretch r (mrows A)) (stretch r (mrows B))))))"

text \<open>\<^verbatim>\<open>h.clip(minval)\<close>: only the lower bound is given.\<close>

definition np_clip :: "real mat \<Rightarrow> real \<Rightarrow> real mat" where
  "np_clip A minval = map_mat (max minval) A"

definition np_log :: "real mat \<Rightarrow> fval mat" where
  "np_log A = map_mat fv_log A"

subsection \<open>Matrix operations\<close>

text \<open>\<^verbatim>\<open>np.insert(A, 0, values=np.ones(m), axis=1)\<close>: a column of ones in front.\<close>

definition insert_ones :: "real mat \<Rightarrow> real mat" where
  "insert_ones A = Mat (ncols A + 1) (map ((#) 1) (mrows A))"

text \<open>\<^verbatim>\<open>A.T\<close>\<close>

definition transpose_mat :: "'a mat \<Rightarrow> 'a mat" where
  "transpose_mat A = Mat (nrows A) (map (\<lambda>j. map (\<lambda>r. r ! j) (mrows A)) [0..<ncols A])"

definition dot :: "real list \<Rightarrow> real list \<Rightarrow> real" where
  "dot a b = sum_list (map2 (*) a b)"

text \<open>The matrix product \<^verbatim>\<open>A * B\<close> of \<^verbatim>\<open>np.matrix\<close>: ValueError unless the inner dimensions agree.\<close>

definition np_matmul :: "real mat \<Rightarrow> real mat \<Rightarrow> error + real mat" where
  "np_matmul A B =
     (if ncols A = nrows B
      then Inr (Mat (ncols B)
             (map (\<lambda>a. map (\<lambda>j. dot a (map (\<lambda>r. r ! j) (mrows B))) [0..<ncols B]) (mrows A)))
      else Inl ValueError)"

text \<open>\<^verbatim>\<open>A[t,:]\<close>: row \<open>t\<close> as a 1-row matrix; IndexError when there is no such row.\<close>

definition row_at :: "'a mat \<Rightarrow> nat \<Rightarrow> error + 'a mat" where
  "row_at A t = (if t < nrows A then Inr (Mat (ncols A) [mrows A ! t]) else Inl IndexError)"

text \<open>\<^verbatim>\<open>A[:,1:]\<close>: all columns but the first.\<close>

definition tail_cols :: "'a mat \<Rightarrow> 'a mat" where
  "tail_cols A = Mat (ncols A - 1) (map tl (mrows A))"

text \<open>\<^verbatim>\<open>np.zeros(A.shape)\<close>\<close>

definition np_zeros_like :: "real mat \<Rightarrow> real mat" where
  "np_zeros_like A = Mat (ncols A) (replicate (nrows A) (replicate (ncols A) 0))"

section \<open>Forward propagation and cost\<close>

definition sigmoid :: "real \<Rightarrow> real" where
  "sigmoid z = 1 / (1 + exp (- z))"

definition sigmoid_gradient :: "real \<Rightarrow> real" where
  "sigmoid_gradient z = sigmoid z * (1 - sigmoid z)"

definition feed_forward ::
  "real mat \<Rightarrow> real mat \<Rightarrow> real mat \<Rightarrow>
   error + (real mat \<times> real mat \<times> real mat \<times> real mat \<times> real mat)" where
  "feed_forward X theta1 theta2 =
     (let a1 = insert_ones X in
      case np_matmul a1 (transpose_mat theta1) of
        Inl e \<Rightarrow> Inl e
      | Inr z2 \<Rightarrow>
          (let a2 = insert_ones (map_mat sigmoid z2) in
           case np_matmul a2 (transpose_mat theta2) of
             Inl e \<Rightarrow> Inl e
           | Inr z3 \<Rightarrow> Inr (a1, z2, a2, z3, map_mat sigmoid z3)))"

text \<open>
  \<^verbatim>\<open>get_cost(y, h, minval)\<close>. The lower bound is applied to \<open>h\<close> in both terms; the second
  logarithm is taken of \<open>1 - h.clip(minval)\<close>.
\<close>

definition get_cost :: "real mat \<Rightarrow> real mat \<Rightarrow> real \<Rightarrow> error + fval" where
  "get_cost y h minval =
     (case np_broadcast2 fv_mul (map_mat Fin (map_mat uminus y)) (np_log (np_clip h minval)) of
        Inl e \<Rightarrow> Inl e
      | Inr first_term \<Rightarrow>
          (case np_broadcast2 fv_mul (map_mat Fin (map_mat (\<lambda>v. 1 - v) y))
                  (np_log (map_mat (\<lambda>v. 1 - v) (np_clip h minval))) of
             Inl e \<Rightarrow> Inl e
           | Inr second_term \<Rightarrow>
               (case np_broadcast2 fv_sub first_term second_term of
                  Inl e \<Rightarrow> Inl e
                | Inr d \<Rightarrow> Inr (np_sum d))))"

section \<open>One pass: cost and gradient\<close>

text \<open>Sequencing of steps that may raise: the first exception ends the computation.\<close>

definition bind_err :: "error + 'a \<Rightarrow> ('a \<Rightarrow> error + 'b) \<Rightarrow> error + 'b" where
  "bind_err m f = (case m of Inl e \<Rightarrow> Inl e | Inr x \<Rightarrow> f x)"

text \<open>
  \<^verbatim>\<open>np.insert(z2t, 0, values=np.ones(1))\<close> has no axis: the row is flattened, a one is put
  in front, and the result is a 1-row matrix again.
\<close>

definition insert_one_flat :: "real mat \<Rightarrow> real mat" where
  "insert_one_flat A = Mat (length (np_ravel A) + 1) [1 # np_ravel A]"

text \<open>The body of the loop \<^verbatim>\<open>for t in range(m)\<close> of \<^verbatim>\<open>fit\<close>, on the two accumulators.\<close>

definition backprop_step ::
  "real mat \<Rightarrow> real mat \<Rightarrow> real mat \<Rightarrow> real mat \<Rightarrow> real mat \<Rightarrow> real mat \<Rightarrow> nat \<Rightarrow>
   real mat \<times> real mat \<Rightarrow> error + (real mat \<times> real mat)" where
  "backprop_step theta2 a1 z2 a2 h y t acc =
     bind_err (row_at a1 t) (\<lambda>a1t.
     bind_err (row_at z2 t) (\<lambda>z2t.
     bind_err (row_at a2 t) (\<lambda>a2t.
     bind_err (row_at h t) (\<lambda>ht.
     bind_err (row_at y t) (\<lambda>yt.
     bind_err (np_broadcast2 (-) ht yt) (\<lambda>d3t.
     bind_err (np_matmul (transpose_mat theta2) (transpose_mat d3t)) (\<lambda>p.
     bind_err (np_broadcast2 (*) (transpose_mat p)
                 (map_mat sigmoid_gradient (insert_one_flat z2t))) (\<lambda>d2t.
     bind_err (np_matmul (transpose_mat (tail_cols d2t)) a1t) (\<lambda>g1.
     bind_err (np_broadcast2 (+) (fst acc) g1) (\<lambda>delta1.
     bind_err (np_matmul (transpose_mat d3t) a2t) (\<lambda>g2.
     bind_err (np_broadcast2 (+) (snd acc) g2) (\<lambda>delta2.
     Inr (delta1, delta2)))))))))))))"

fun backprop_loop ::
  "real mat \<Rightarrow> real mat \<Rightarrow> real mat \<Rightarrow> real mat \<Rightarrow> real mat \<Rightarrow> real mat \<Rightarrow> nat list \<Rightarrow>
   real mat \<times> real mat \<Rightarrow> error + (real mat \<times> real mat)" where
  "backprop_loop theta2 a1 z2 a2 h y [] acc = Inr acc"
| "backprop_loop theta2 a1 z2 a2 h y (t # ts) acc =
     (case backprop_step theta2 a1 z2 a2 h y t acc of
        Inl e \<Rightarrow> Inl e
      | Inr acc' \<Rightarrow> backprop_loop theta2 a1 z2 a2 h y ts acc')"

text \<open>
  The slice assignment \<^verbatim>\<open>D[:,1:] = R\<close>. Here \<open>R\<close> is the broadcast sum of that slice with
  another matrix, so numpy accepts it exactly when it has the slice's shape.
\<close>

definition assign_tail_cols :: "real mat \<Rightarrow> real mat \<Rightarrow> error + real mat" where
  "assign_tail_cols D R =
     (if nrows R = nrows D \<and> ncols R = ncols D - 1
      then Inr (Mat (ncols D) (map2 (\<lambda>d r. take 1 d @ r) (mrows D) (mrows R)))
      else Inl ValueError)"

text \<open>
  \<^verbatim>\<open>delta = delta / m\<close> followed by
  \<^verbatim>\<open>delta[:,1:] = delta[:,1:] + (theta[:,1:] * self.lam) / m\<close>.
\<close>

definition regularize :: "real \<Rightarrow> nat \<Rightarrow> real mat \<Rightarrow> real mat \<Rightarrow> error + real mat" where
  "regularize l m delta theta =
     (let d = map_mat (\<lambda>v. v / real m) delta in
      bind_err (np_broadcast2 (+) (tail_cols d)
                  (map_mat (\<lambda>v. v * l / real m) (tail_cols theta)))
        (assign_tail_cols d))"

text \<open>The regularization term of the cost, over all columns but the bias column.\<close>

definition reg_cost :: "real \<Rightarrow> nat \<Rightarrow> real mat \<Rightarrow> real mat \<Rightarrow> real" where
  "reg_cost l m theta1 theta2 =
     l / (2 * real m) *
       (np_sum_r (map_mat (\<lambda>v. v ^ 2) (tail_cols theta1)) +
        np_sum_r (map_mat (\<lambda>v. v ^ 2) (tail_cols theta2)))"

text \<open>
  \<^verbatim>\<open>fit(self, params, X, y, output)\<close> returns what the call produced (an exception or the
  pair of cost and flat gradient) and the instance after the call. With \<open>m = 0\<close> the
  Python division \<^verbatim>\<open>float(self.lam) / (2 * m)\<close> raises.
\<close>

definition fit ::
  "neuralnet \<Rightarrow> real list \<Rightarrow> real mat \<Rightarrow> real mat \<Rightarrow> bool \<Rightarrow>
   (error + (fval \<times> real list)) \<times> neuralnet" where
  "fit self ps X y out =
     (let m = nrows X in
      case reshape_theta self ps of
        Inl e \<Rightarrow> (Inl e, self)
      | Inr (theta1, theta2) \<Rightarrow>
     (case feed_forward X theta1 theta2 of
        Inl e \<Rightarrow> (Inl e, self)
      | Inr (a1, z2, a2, z3, h) \<Rightarrow>
     (case get_cost y h (1 / 10 ^ 10) of
        Inl e \<Rightarrow> (Inl e, self)
      | Inr c \<Rightarrow>
     if m = 0 then (Inl ZeroDivisionError, self)
     else
       (let J = fv_add (fv_div_nat c m) (Fin (reg_cost (lam self) m theta1 theta2));
            self' = (if out then self\<lparr>writer := writer self @ [WCost J]\<rparr> else self)
        in
        (case bind_err
                (backprop_loop theta2 a1 z2 a2 h y [0..<m]
                   (np_zeros_like theta1, np_zeros_like theta2))
                (\<lambda>acc.
                   bind_err (regularize (lam self) m (fst acc) theta1) (\<lambda>delta1.
                   bind_err (regularize (lam self) m (snd acc) theta2) (\<lambda>delta2.
                   Inr (flatten delta1 delta2)))) of
           Inl e \<Rightarrow> (Inl e, self')
         | Inr grad \<Rightarrow> (Inr (J, grad), self'))))))"

section \<open>Training\<close>

text \<open>
  \<^verbatim>\<open>scipy.optimize.minimize\<close> is an external routine. All it can do with the objective
  is call it, so an optimizer run is a tree: it returns a vector, or it asks for the
  objective at a point and goes on with the cost and gradient it gets back.
\<close>

datatype minimizer = Return "real list" | Evaluate "real list" "fval \<times> real list \<Rightarrow> minimizer"

primrec run_minimizer ::
  "minimizer \<Rightarrow> (real list \<Rightarrow> neuralnet \<Rightarrow> (error + (fval \<times> real list)) \<times> neuralnet) \<Rightarrow>
   neuralnet \<Rightarrow> (error + real list) \<times> neuralnet" where
  "run_minimizer (Return x) f s = (Inr x, s)"
| "run_minimizer (Evaluate p k) f s =
     (case f p s of
        (Inl e, s') \<Rightarrow> (Inl e, s')
      | (Inr r, s') \<Rightarrow> run_minimizer (k r) f s')"

text \<open>
  \<^verbatim>\<open>train(self, verbose, save)\<close>. The optimizer \<open>minimize\<close> is a parameter: from the
  starting point \<^verbatim>\<open>self.params\<close> and the iteration budget it gives the run. The files
  are a map from a path to the row written there.
\<close>

definition train ::
  "(real list \<Rightarrow> nat \<Rightarrow> minimizer) \<Rightarrow> neuralnet \<Rightarrow> (string \<rightharpoonup> real list) \<Rightarrow> bool \<Rightarrow> bool \<Rightarrow>
   (error + real list) \<times> neuralnet \<times> (string \<rightharpoonup> real list)" where
  "train minimize self files verbose save =
     (case run_minimizer (minimize (params self) (maxiter self))
             (\<lambda>p s. fit s p (net_X self) (net_Y self) verbose) self of
        (Inl e, self') \<Rightarrow> (Inl e, self', files)
      | (Inr x, self') \<Rightarrow>
          (Inr x, self', if save then files(net_output self \<mapsto> x) else files))"

section \<open>Prediction and data split\<close>

text \<open>
  \<^verbatim>\<open>def predict(x)\<close> is declared in the class with the single parameter \<open>x\<close>. A call
  \<^verbatim>\<open>net.predict(a, ...)\<close> passes the instance and then the arguments \<open>args\<close>: with one
  argument or more that is more than the one parameter, a TypeError. With no argument
  \<open>x\<close> is the instance, and the body reads the name \<^verbatim>\<open>self\<close>, which is bound neither
  in the function nor in the module: a NameError.
\<close>

definition predict :: "neuralnet \<Rightarrow> real mat list \<Rightarrow> error + real mat" where
  "predict inst args = (if length args + 1 \<noteq> 1 then Inl TypeError else Inl NameError)"

text \<open>\<^verbatim>\<open>A[a:b, :]\<close> for \<open>0 \<le> a\<close> and \<open>0 \<le> b\<close>: a slice never raises.\<close>

definition rows_slice :: "'a mat \<Rightarrow> nat \<Rightarrow> nat \<Rightarrow> 'a mat" where
  "rows_slice A a b = Mat (ncols A) (drop a (take b (mrows A)))"

text \<open>
  \<^verbatim>\<open>round(x, 0)\<close> on a float: the nearest integer, and of two equally near ones the
  even one.
\<close>

definition py_round :: "real \<Rightarrow> int" where
  "py_round x =
     (if x - of_int \<lfloor>x\<rfloor> < 1 / 2 then \<lfloor>x\<rfloor>
      else if 1 / 2 < x - of_int \<lfloor>x\<rfloor> then \<lfloor>x\<rfloor> + 1
      else if even \<lfloor>x\<rfloor> then \<lfloor>x\<rfloor> else \<lfloor>x\<rfloor> + 1)"

text \<open>
  \<^verbatim>\<open>split(self, input)\<close>. The division \<^verbatim>\<open>length/10\<close> is the true division, so \<open>unit\<close>
  is a fraction; \<^verbatim>\<open>int(round(..., 0))\<close> of a value that is not negative is the rounded
  value as a natural number.
\<close>

definition split :: "'a mat \<Rightarrow> 'a mat \<times> 'a mat \<times> 'a mat" where
  "split input =
     (let len = nrows input;
          unit = real len / 10;
          train = nat (py_round (unit * 6));
          cross_test = nat (py_round (unit * 2))
      in (rows_slice input 0 train,
          rows_slice input train (train + cross_test),
          rows_slice input (train + cross_test) len))"

section \<open>Properties of inputs\<close>

text \<open>A one-hot label matrix: every row holds zeros and ones, and exactly one one.\<close>

definition one_hot :: "real mat \<Rightarrow> bool" where
  "one_hot y =
     list_all (\<lambda>r. list_all (\<lambda>v. v = 0 \<or> v = 1) r \<and> length (filter (\<lambda>v. v = 1) r) = 1) (mrows y)"

text \<open>A prediction matrix with every entry strictly between 0 and 1.\<close>

definition strictly_between :: "real mat \<Rightarrow> bool" where
  "strictly_between h = list_all (list_all (\<lambda>v. 0 < v \<and> v < 1)) (mrows h)"

text \<open>
  What \<open>get_cost\<close> sums, at one entry: the value of \<^verbatim>\<open>first_term - second_term\<close>
  where the label is \<open>y\<close> and the prediction is \<open>h\<close>.
\<close>

definition cost_entry :: "real \<Rightarrow> real \<Rightarrow> real \<Rightarrow> fval" where
  "cost_entry minval y h =
     fv_sub (fv_mul (Fin (- y)) (fv_log (max minval h)))
            (fv_mul (Fin (1 - y)) (fv_log (1 - max minval h)))"

section \<open>The matrix product in mathematical terms\<close>

text \<open>
  Entry \<open>(i, j)\<close> of the product of \<open>A\<close> with the transpose of \<open>B\<close>, as the sum over the
  common index: what \<open>z2 = a1 \<cdot> Theta1\<^sup>T\<close> and \<open>z3 = a2 \<cdot> Theta2\<^sup>T\<close> mean.
\<close>

definition mat_prod_T :: "real mat \<Rightarrow> real mat \<Rightarrow> nat \<Rightarrow> nat \<Rightarrow> real" where
  "mat_prod_T A B i j = (\<Sum>c<ncols A. ent A i c * ent B j c)"

text \<open>The same product as a matrix of dot products of rows, the form the proofs work with.\<close>

definition prod_transposed :: "real mat \<Rightarrow> real mat \<Rightarrow> real mat" where
  "prod_transposed A B = Mat (nrows B) (map (\<lambda>a. map (dot a) (mrows B)) (mrows A))"

section \<open>Shapes\<close>

text \<open>A numpy matrix of shape \<open>(r, c)\<close>.\<close>

definition shaped :: "nat \<Rightarrow> nat \<Rightarrow> 'a mat \<Rightarrow> bool" where
  "shaped r c A = (wf_mat A \<and> nrows A = r \<and> ncols A = c)"

text \<open>
  Correctly shaped arguments of \<open>fit\<close>: a parameter vector of the architecture's length,
  an input matrix with at least one row and \<open>input_size\<close> columns, and a label matrix
  with as many rows and \<open>num_labels\<close> columns.
\<close>

definition well_shaped :: "neuralnet \<Rightarrow> real list \<Rightarrow> real mat \<Rightarrow> real mat \<Rightarrow> bool" where
  "well_shaped self ps X y =
     (length ps = params_size self \<and>
      wf_mat X \<and> ncols X = input_size self \<and> 0 < nrows X \<and>
      wf_mat y \<and> nrows y = nrows X \<and> ncols y = num_labels self)"

text \<open>Two instances with the same architecture.\<close>

definition same_sizes :: "neuralnet \<Rightarrow> neuralnet \<Rightarrow> bool" where
  "same_sizes s self =
     (input_size s = input_size self \<and> hidden_size s = hidden_size self \<and>
      num_labels s = num_labels self)"

section \<open>A small instance\<close>

text \<open>One input feature, one hidden unit, two labels, one example: six parameters.\<close>

definition example_net :: neuralnet where
  "example_net =
     \<lparr>net_X = Mat 1 [[1]], net_Y = Mat 2 [[1, 0]], num_labels = 2, input_size = 1,
      hidden_size = 1, lam = 1, net_output = ''./params'',
      params = [1/8, -1/8, 0, 1/16, -1/16, 1/8], maxiter = 250, writer = []\<rparr>"


section \<open>The parameter codec\<close>

lemma concat_chop: "concat (chop r c v) = take (r * c) v"
proof (induction r arbitrary: v)
  case 0
  show ?case by simp
next
  case (Suc r)
  have "take c v @ take (r * c) (drop c v) = take (c + r * c) v"
    by (simp add: take_add)
  with Suc show ?case by simp
qed

lemma length_chop: "length (chop r c v) = r"
  by (induction r arbitrary: v) simp_all

lemma chop_rows: "length v = r * c \<Longrightarrow> list_all (\<lambda>x. length x = c) (chop r c v)"
  by (induction r arbitrary: v) simp_all

lemma chop_concat:
  "length rs = r \<Longrightarrow> list_all (\<lambda>x. length x = c) rs \<Longrightarrow> chop r c (concat rs) = rs"
  by (induction rs arbitrary: r) auto

lemma length_concat_rows:
  "list_all (\<lambda>x. length x = c) rs \<Longrightarrow> length (concat rs) = length rs * c"
  by (induction rs) simp_all

lemma reshape_theta_ok:
  assumes "length v = params_size self"
  shows "reshape_theta self v =
     Inr (Mat (input_size self + 1)
            (chop (hidden_size self) (input_size self + 1)
               (take (hidden_size self * (input_size self + 1)) v)),
          Mat (hidden_size self + 1)
            (chop (num_labels self) (hidden_size self + 1)
               (drop (hidden_size self * (input_size self + 1)) v)))"
  using assms by (simp add: reshape_theta_def np_reshape_def params_size_def)

lemma reshape_theta_bad:
  assumes "length v \<noteq> params_size self"
  shows "reshape_theta self v = Inl ValueError"
  using assms by (auto simp: reshape_theta_def np_reshape_def params_size_def min_def split: sum.splits)

text \<open>
  Claim C4. The parameter codec is an inverse pair. A flat vector of the length the
  architecture asks for is unflattened by \<open>reshape_theta\<close> into two matrices whose
  row-major flattening is the vector again; and two well-formed matrices of shapes
  \<open>(hidden_size, input_size + 1)\<close> and \<open>(num_labels, hidden_size + 1)\<close> are returned
  unchanged by unflattening their flattening.
\<close>

theorem codec_inverse:
  "(length v = params_size self \<longrightarrow>
      (\<exists>t1 t2. reshape_theta self v = Inr (t1, t2) \<and> flatten t1 t2 = v)) \<and>
   (wf_mat T1 \<and> nrows T1 = hidden_size self \<and> ncols T1 = input_size self + 1 \<and>
    wf_mat T2 \<and> nrows T2 = num_labels self \<and> ncols T2 = hidden_size self + 1 \<longrightarrow>
      reshape_theta self (flatten T1 T2) = Inr (T1, T2))"
proof (intro conjI impI)
  assume len: "length v = params_size self"
  have "take (hidden_size self * (input_size self + 1)) v @
        take (num_labels self * (hidden_size self + 1))
          (drop (hidden_size self * (input_size self + 1)) v) = v"
    using len by (simp add: params_size_def)
  then show "\<exists>t1 t2. reshape_theta self v = Inr (t1, t2) \<and> flatten t1 t2 = v"
    using len by (simp add: reshape_theta_ok flatten_def np_ravel_def concat_chop)
next
  assume a: "wf_mat T1 \<and> nrows T1 = hidden_size self \<and> ncols T1 = input_size self + 1 \<and>
    wf_mat T2 \<and> nrows T2 = num_labels self \<and> ncols T2 = hidden_size self + 1"
  obtain c1 r1 where T1: "T1 = Mat c1 r1" by (cases T1)
  obtain c2 r2 where T2: "T2 = Mat c2 r2" by (cases T2)
  from a T1 have r1: "list_all (\<lambda>x. length x = input_size self + 1) r1" "length r1 = hidden_size self"
    "c1 = input_size self + 1"
    by (auto simp: wf_mat_def nrows_def)
  from a T2 have r2: "list_all (\<lambda>x. length x = hidden_size self + 1) r2" "length r2 = num_labels self"
    "c2 = hidden_size self + 1"
    by (auto simp: wf_mat_def nrows_def)
  have l1: "length (concat r1) = hidden_size self * (input_size self + 1)"
    using length_concat_rows [OF r1(1)] r1(2) by simp
  have l2: "length (concat r2) = num_labels self * (hidden_size self + 1)"
    using length_concat_rows [OF r2(1)] r2(2) by simp
  show "reshape_theta self (flatten T1 T2) = Inr (T1, T2)"
    using l1 l2 r1 r2 chop_concat [OF r1(2) r1(1)] chop_concat [OF r2(2) r2(1)]
    by (simp add: reshape_theta_def np_reshape_def flatten_def np_ravel_def T1 T2)
qed

theorem codec_inverse_witness:
  "(\<exists>t1 t2. reshape_theta example_net (params example_net) = Inr (t1, t2) \<and>
       flatten t1 t2 = params example_net) \<and>
   reshape_theta example_net (flatten (Mat 2 [[1, 2]]) (Mat 2 [[3, 4], [5, 6]])) =
     Inr (Mat 2 [[1, 2]], Mat 2 [[3, 4], [5, 6]])"
  using codec_inverse [of "params example_net" example_net "Mat 2 [[1, 2]]" "Mat 2 [[3, 4], [5, 6]]"]
  by (simp add: example_net_def params_size_def wf_mat_def nrows_def)

text \<open>
  Claim C7. \<open>reshape_theta\<close> succeeds exactly on the vectors of length
  \<open>hidden_size * (input_size + 1) + num_labels * (hidden_size + 1)\<close>. On such a vector
  the two matrices have the shapes of the architecture and hold the vector's entries,
  none dropped and none added. On any other length it raises ValueError, and \<open>fit\<close>
  ends with that error before it computes or emits anything.
\<close>

theorem reshape_theta_length:
  "(length v = params_size self \<longrightarrow>
      (\<exists>t1 t2. reshape_theta self v = Inr (t1, t2) \<and>
         wf_mat t1 \<and> nrows t1 = hidden_size self \<and> ncols t1 = input_size self + 1 \<and>
         wf_mat t2 \<and> nrows t2 = num_labels self \<and> ncols t2 = hidden_size self + 1 \<and>
         np_ravel t1 @ np_ravel t2 = v)) \<and>
   (length v \<noteq> params_size self \<longrightarrow>
      reshape_theta self v = Inl ValueError \<and> fit self v X y out = (Inl ValueError, self))"
proof (intro conjI impI)
  assume len: "length v = params_size self"
  let ?n1 = "hidden_size self * (input_size self + 1)"
  let ?n2 = "num_labels self * (hidden_size self + 1)"
  have l1: "length (take ?n1 v) = hidden_size self * (input_size self + 1)"
    using len by (simp add: params_size_def)
  have l2: "length (drop ?n1 v) = num_labels self * (hidden_size self + 1)"
    using len by (simp add: params_size_def)
  have cat: "take ?n1 (take ?n1 v) @ take ?n2 (drop ?n1 v) = v"
    using len by (simp add: params_size_def)
  show "\<exists>t1 t2. reshape_theta self v = Inr (t1, t2) \<and>
         wf_mat t1 \<and> nrows t1 = hidden_size self \<and> ncols t1 = input_size self + 1 \<and>
         wf_mat t2 \<and> nrows t2 = num_labels self \<and> ncols t2 = hidden_size self + 1 \<and>
         np_ravel t1 @ np_ravel t2 = v"
    using chop_rows [OF l1] chop_rows [OF l2] cat
    by (simp add: reshape_theta_ok [OF len] wf_mat_def nrows_def length_chop np_ravel_def
        concat_chop)
next
  assume "length v \<noteq> params_size self"
  then show "reshape_theta self v = Inl ValueError"
    by (rule reshape_theta_bad)
next
  assume "length v \<noteq> params_size self"
  then show "fit self v X y out = (Inl ValueError, self)"
    by (simp add: fit_def reshape_theta_bad)
qed

theorem reshape_theta_length_witness:
  "(\<exists>t1 t2. reshape_theta example_net [1, 2, 3, 4, 5, 6] = Inr (t1, t2) \<and>
      wf_mat t1 \<and> nrows t1 = 1 \<and> ncols t1 = 2 \<and> wf_mat t2 \<and> nrows t2 = 2 \<and> ncols t2 = 2 \<and>
      np_ravel t1 @ np_ravel t2 = [1, 2, 3, 4, 5, 6]) \<and>
   reshape_theta example_net [1, 2, 3, 4, 5] = Inl ValueError \<and>
   fit example_net [1, 2, 3, 4, 5] (Mat 1 [[1]]) (Mat 2 [[1, 0]]) True =
     (Inl ValueError, example_net)"
proof -
  have sz: "hidden_size example_net = 1" "input_size example_net = 1"
    "num_labels example_net = 2" "params_size example_net = 6"
    by (simp_all add: example_net_def params_size_def)
  show ?thesis
    using reshape_theta_length [of "[1, 2, 3, 4, 5, 6]" example_net]
      reshape_theta_length [of "[1, 2, 3, 4, 5]" example_net "Mat 1 [[1]]" "Mat 2 [[1, 0]]" True]
    by (simp add: sz numeral_2_eq_2)
qed

section \<open>The data split\<close>

lemma py_round_eq_round:
  assumes "x - of_int \<lfloor>x\<rfloor> \<noteq> 1 / 2"
  shows "py_round x = round x"
proof -
  have fl: "of_int \<lfloor>x\<rfloor> \<le> x" "x < of_int \<lfloor>x\<rfloor> + 1"
    by linarith+
  show ?thesis
  proof (cases "x - of_int \<lfloor>x\<rfloor> < 1 / 2")
    case True
    then have "\<lfloor>x + 1 / 2\<rfloor> = \<lfloor>x\<rfloor>"
      using fl True by (intro floor_unique) linarith+
    with True show ?thesis
      by (simp add: py_round_def round_def)
  next
    case False
    with assms have gt: "1 / 2 < x - of_int \<lfloor>x\<rfloor>"
      by simp
    then have "\<lfloor>x + 1 / 2\<rfloor> = \<lfloor>x\<rfloor> + 1"
      using fl gt by (intro floor_unique) linarith+
    with False gt show ?thesis
      by (simp add: py_round_def round_def)
  qed
qed

lemma no_tie:
  fixes n :: nat and a :: int
  assumes "a = 6 \<or> a = 2"
  shows "real n / 10 * of_int a - of_int \<lfloor>real n / 10 * of_int a\<rfloor> \<noteq> 1 / 2"
proof
  let ?k = "\<lfloor>real n / 10 * of_int a\<rfloor>"
  assume "real n / 10 * of_int a - of_int ?k = 1 / 2"
  then have "real n * of_int a = 10 * of_int ?k + 5"
    by (simp add: field_simps)
  then have "of_int (int n * a) = (of_int (10 * ?k + 5) :: real)"
    by simp
  then have "int n * a = 10 * ?k + 5"
    by (simp only: of_int_eq_iff)
  with assms show False
    by presburger
qed

lemma py_round_train: "py_round (real n / 10 * 6) = round (0.6 * real n)"
proof -
  have e: "real n / 10 * 6 = 0.6 * real n"
    by simp
  have "py_round (real n / 10 * 6) = round (real n / 10 * 6)"
    using no_tie [of 6 n] by (intro py_round_eq_round) simp
  then show ?thesis
    by (simp only: e)
qed

lemma py_round_cross: "py_round (real n / 10 * 2) = round (0.2 * real n)"
proof -
  have e: "real n / 10 * 2 = 0.2 * real n"
    by simp
  have "py_round (real n / 10 * 2) = round (real n / 10 * 2)"
    using no_tie [of 2 n] by (intro py_round_eq_round) simp
  then show ?thesis
    by (simp only: e)
qed

lemma blocks_fit:
  "nat (round (0.6 * real n)) + nat (round (0.2 * real n)) \<le> n"
proof (cases "5 \<le> n")
  case True
  have "real_of_int (round (0.6 * real n)) \<le> 0.6 * real n + 1 / 2"
    "real_of_int (round (0.2 * real n)) \<le> 0.2 * real n + 1 / 2"
    by (rule of_int_round_le)+
  then have "real_of_int (round (0.6 * real n) + round (0.2 * real n)) \<le> real n"
    using True by simp
  then have "round (0.6 * real n) + round (0.2 * real n) \<le> int n"
    by linarith
  moreover have "0 \<le> round (0.6 * real n)" "0 \<le> round (0.2 * real n)"
    using round_mono [of 0 "0.6 * real n"] round_mono [of 0 "0.2 * real n"] by simp_all
  ultimately show ?thesis by linarith
next
  case False
  then consider "n = 0" | "n = 1" | "n = 2" | "n = 3" | "n = 4"
    by linarith
  then show ?thesis
    by cases (simp_all add: round_def)
qed

lemma split_blocks:
  "split A =
     (Mat (ncols A) (take (nat (round (0.6 * real (nrows A)))) (mrows A)),
      Mat (ncols A) (take (nat (round (0.2 * real (nrows A))))
                       (drop (nat (round (0.6 * real (nrows A)))) (mrows A))),
      Mat (ncols A) (drop (nat (round (0.6 * real (nrows A))) + nat (round (0.2 * real (nrows A))))
                       (mrows A)))"
proof -
  define t where "t = nat (round (0.6 * real (nrows A)))"
  define c where "c = nat (round (0.2 * real (nrows A)))"
  have "split A = (rows_slice A 0 t, rows_slice A t (t + c), rows_slice A (t + c) (nrows A))"
    unfolding split_def Let_def py_round_train py_round_cross t_def c_def ..
  moreover have "drop t (take (t + c) (mrows A)) = take c (drop t (mrows A))"
    by (simp add: drop_take)
  ultimately show ?thesis
    unfolding t_def [symmetric] c_def [symmetric] by (simp add: rows_slice_def nrows_def)
qed

text \<open>
  Claim C3. \<open>split\<close> cuts the rows, in their order and without shuffling, into three
  consecutive blocks: the first \<open>round(0.6 * n)\<close> rows for training, the next
  \<open>round(0.2 * n)\<close> rows for cross-validation and the remaining
  \<open>n - round(0.6 * n) - round(0.2 * n)\<close> rows for the test. Neither product is ever
  halfway between two integers, so every rounding rule gives the same sizes. On 100
  rows the sizes are 60, 20 and 20, on 10 rows 6, 2 and 2.
\<close>

theorem split_partition:
  "mrows (fst (split A)) @ mrows (fst (snd (split A))) @ mrows (snd (snd (split A))) = mrows A \<and>
   nrows (fst (split A)) = nat (round (0.6 * real (nrows A))) \<and>
   nrows (fst (snd (split A))) = nat (round (0.2 * real (nrows A))) \<and>
   nrows (snd (snd (split A))) =
     nrows A - nat (round (0.6 * real (nrows A))) - nat (round (0.2 * real (nrows A))) \<and>
   ncols (fst (split A)) = ncols A \<and> ncols (fst (snd (split A))) = ncols A \<and>
   ncols (snd (snd (split A))) = ncols A \<and>
   (nrows A = 100 \<longrightarrow>
      nrows (fst (split A)) = 60 \<and> nrows (fst (snd (split A))) = 20 \<and>
      nrows (snd (snd (split A))) = 20) \<and>
   (nrows A = 10 \<longrightarrow>
      nrows (fst (split A)) = 6 \<and> nrows (fst (snd (split A))) = 2 \<and>
      nrows (snd (snd (split A))) = 2)"
proof -
  define t where "t = nat (round (0.6 * real (nrows A)))"
  define c where "c = nat (round (0.2 * real (nrows A)))"
  have le: "t + c \<le> length (mrows A)"
    using blocks_fit [of "nrows A"] by (simp add: t_def c_def nrows_def)
  have sp: "split A = (Mat (ncols A) (take t (mrows A)), Mat (ncols A) (take c (drop t (mrows A))),
                       Mat (ncols A) (drop (t + c) (mrows A)))"
    unfolding t_def c_def by (rule split_blocks)
  have cat: "take t (mrows A) @ take c (drop t (mrows A)) @ drop (t + c) (mrows A) = mrows A"
    by (metis add.commute append_take_drop_id drop_drop)
  have n1: "nrows (fst (split A)) = t" and n2: "nrows (fst (snd (split A))) = c"
    and n3: "nrows (snd (snd (split A))) = nrows A - t - c"
    using le by (simp_all add: sp nrows_def)
  have h: "t = 60 \<and> c = 20" if "nrows A = 100"
    using that by (simp add: t_def c_def round_def)
  have d: "t = 6 \<and> c = 2" if "nrows A = 10"
    using that by (simp add: t_def c_def round_def)
  show ?thesis
    unfolding n1 n2 n3 t_def [symmetric] c_def [symmetric]
    using cat h d by (auto simp: sp)
qed

theorem split_partition_witness:
  "nrows (fst (split (Mat 1 (replicate 100 [0::real])))) = 60 \<and>
   nrows (fst (snd (split (Mat 1 (replicate 100 [0::real]))))) = 20 \<and>
   nrows (snd (snd (split (Mat 1 (replicate 100 [0::real]))))) = 20 \<and>
   nrows (fst (split (Mat 1 (replicate 10 [0::real])))) = 6 \<and>
   nrows (fst (snd (split (Mat 1 (replicate 10 [0::real]))))) = 2 \<and>
   nrows (snd (snd (split (Mat 1 (replicate 10 [0::real]))))) = 2 \<and>
   nrows (fst (split (Mat 1 (replicate 15 [0::real])))) = 9 \<and>
   nrows (fst (snd (split (Mat 1 (replicate 15 [0::real]))))) = 3 \<and>
   nrows (snd (snd (split (Mat 1 (replicate 15 [0::real]))))) = 3"
  using split_partition [of "Mat 1 (replicate 100 [0::real])"]
    split_partition [of "Mat 1 (replicate 10 [0::real])"]
    split_partition [of "Mat 1 (replicate 15 [0::real])"]
  by (simp add: nrows_def round_def)

section \<open>Prediction\<close>

text \<open>
  Claim C6. The claim is that \<open>predict(x)\<close> returns the output activations for the row
  \<open>x\<close>. No call of \<open>predict\<close> on an instance returns: with a row as argument it raises
  TypeError, with no argument NameError.
\<close>

theorem predict_raises:
  "predict inst [x] = Inl TypeError \<and> predict inst [] = Inl NameError \<and>
   (\<forall>args h. predict inst args \<noteq> Inr h)"
  by (simp add: predict_def)

section \<open>The cost\<close>

text \<open>
  Claim C2. The claim is that \<open>h\<close> and \<open>1 - h\<close> are both bounded below before the
  logarithms, so that the cost is finite for predictions in the closed interval from 0
  to 1. Only \<open>h\<close> is bounded below: where a prediction is exactly 1 the second logarithm
  is taken of 0. On the label row \<open>(1, 0)\<close> predicted exactly, as \<open>(1, 0)\<close>, the cost is
  not a number; on the label row \<open>(0, 1)\<close> with the prediction \<open>(1, 0)\<close> it is infinite.
\<close>

theorem get_cost_log_zero:
  "get_cost (Mat 2 [[1, 0]]) (Mat 2 [[1, 0]]) (1 / 10 ^ 10) = Inr NaN \<and>
   get_cost (Mat 2 [[0, 1]]) (Mat 2 [[1, 0]]) (1 / 10 ^ 10) = Inr PInf"
  by (simp add: get_cost_def np_broadcast2_def bc_dim_def stretch_def nrows_def map_mat_def
      np_log_def np_clip_def fv_log_def np_sum_def fv_sub_def signed_inf_def)

lemma stretch_same: "length xs = n \<Longrightarrow> stretch n xs = xs"
  by (simp add: stretch_def)

lemma map2_stretch_rows:
  assumes "list_all (\<lambda>r. length r = c) ra" "list_all (\<lambda>r. length r = c) rb"
  shows "map2 (\<lambda>a b. map2 f (stretch c a) (stretch c b)) ra rb = map2 (map2 f) ra rb"
proof (rule map_cong [OF refl])
  fix p assume mem: "p \<in> set (zip ra rb)"
  obtain a b where p: "p = (a, b)"
    by (cases p)
  from mem p have "a \<in> set ra" "b \<in> set rb"
    by (auto elim: in_set_zipE)
  with assms have "length a = c" "length b = c"
    by (auto simp: list_all_iff)
  then show "(case p of (a, b) \<Rightarrow> map2 f (stretch c a) (stretch c b)) = (case p of (a, b) \<Rightarrow> map2 f a b)"
    by (simp add: p stretch_same)
qed

lemma np_broadcast2_same:
  assumes "wf_mat A" "wf_mat B" "nrows A = nrows B" "ncols A = ncols B"
  shows "np_broadcast2 f A B = Inr (Mat (ncols A) (map2 (map2 f) (mrows A) (mrows B)))"
proof -
  have "map2 (\<lambda>a b. map2 f (stretch (ncols A) a) (stretch (ncols A) b)) (mrows A) (mrows B) =
        map2 (map2 f) (mrows A) (mrows B)"
    using assms by (intro map2_stretch_rows) (simp_all add: wf_mat_def)
  then show ?thesis
    using assms by (simp add: np_broadcast2_def bc_dim_def stretch_same nrows_def)
qed

lemma wf_map_mat [simp]: "wf_mat (map_mat f A) = wf_mat A"
  by (simp add: wf_mat_def map_mat_def list_all_iff)

lemma nrows_map_mat [simp]: "nrows (map_mat f A) = nrows A"
  by (simp add: nrows_def map_mat_def)

lemma ncols_map_mat [simp]: "ncols (map_mat f A) = ncols A"
  by (simp add: map_mat_def)

lemma mrows_map_mat [simp]: "mrows (map_mat f A) = map (map f) (mrows A)"
  by (simp add: map_mat_def)

lemma wf_map2_rows:
  assumes "list_all (\<lambda>r. length r = c) ra" "list_all (\<lambda>r. length r = c) rb"
  shows "list_all (\<lambda>r. length r = c) (map2 (map2 f) ra rb)"
  using assms by (auto simp: list_all_iff elim!: in_set_zipE)

lemma map2_map_row:
  "map2 f3 (map2 f1 (map a ys) (map b hs)) (map2 f2 (map c ys) (map d hs)) =
   map2 (\<lambda>y h. f3 (f1 (a y) (b h)) (f2 (c y) (d h))) ys hs"
proof (induction ys arbitrary: hs)
  case Nil
  show ?case by simp
next
  case (Cons y ys)
  then show ?case by (cases hs) simp_all
qed

lemma map2_map_rows:
  "map2 (map2 f3) (map2 (map2 f1) (map (map a) ys) (map (map b) hs))
      (map2 (map2 f2) (map (map c) ys) (map (map d) hs)) =
   map2 (map2 (\<lambda>y h. f3 (f1 (a y) (b h)) (f2 (c y) (d h)))) ys hs"
proof (induction ys arbitrary: hs)
  case Nil
  show ?case by simp
next
  case (Cons y ys)
  then show ?case by (cases hs) (simp_all add: map2_map_row)
qed

lemma get_cost_same_shape:
  assumes "wf_mat y" "wf_mat h" "nrows h = nrows y" "ncols h = ncols y"
  shows "get_cost y h minval =
     Inr (foldr fv_add (concat (map2 (map2 (cost_entry minval)) (mrows y) (mrows h))) (Fin 0))"
proof -
  let ?c = "ncols y"
  let ?l = "np_log (np_clip h minval)"
  let ?l2 = "np_log (map_mat (\<lambda>v. 1 - v) (np_clip h minval))"
  let ?ft = "Mat ?c (map2 (map2 fv_mul) (mrows (map_mat Fin (map_mat uminus y))) (mrows ?l))"
  let ?st = "Mat ?c (map2 (map2 fv_mul) (mrows (map_mat Fin (map_mat (\<lambda>v. 1 - v) y))) (mrows ?l2))"
  have ft: "np_broadcast2 fv_mul (map_mat Fin (map_mat uminus y)) ?l = Inr ?ft"
    using assms np_broadcast2_same [of "map_mat Fin (map_mat uminus y)" ?l fv_mul]
    by (simp add: np_log_def np_clip_def)
  have st: "np_broadcast2 fv_mul (map_mat Fin (map_mat (\<lambda>v. 1 - v) y)) ?l2 = Inr ?st"
    using assms np_broadcast2_same [of "map_mat Fin (map_mat (\<lambda>v. 1 - v) y)" ?l2 fv_mul]
    by (simp add: np_log_def np_clip_def)
  have wy: "list_all (\<lambda>r. length r = ?c) (mrows y)" and wh: "list_all (\<lambda>r. length r = ?c) (mrows h)"
    using assms by (simp_all add: wf_mat_def)
  have wft: "wf_mat ?ft"
    unfolding wf_mat_def mat.sel
    by (rule wf_map2_rows) (use wy wh in \<open>simp_all add: np_log_def np_clip_def list_all_iff\<close>)
  have wst: "wf_mat ?st"
    unfolding wf_mat_def mat.sel
    by (rule wf_map2_rows) (use wy wh in \<open>simp_all add: np_log_def np_clip_def list_all_iff\<close>)
  have nr: "nrows ?ft = nrows ?st"
    using assms by (simp add: nrows_def np_log_def np_clip_def)
  have d: "np_broadcast2 fv_sub ?ft ?st = Inr (Mat ?c (map2 (map2 fv_sub) (mrows ?ft) (mrows ?st)))"
    using np_broadcast2_same [OF wft wst nr] by simp
  have e: "map2 (map2 fv_sub) (mrows ?ft) (mrows ?st) =
           map2 (map2 (cost_entry minval)) (mrows y) (mrows h)"
    by (simp add: np_log_def np_clip_def map2_map_rows [where ?f3.0 = fv_sub and ?f1.0 = fv_mul
          and ?f2.0 = fv_mul and a = "\<lambda>v. Fin (- v)" and b = "\<lambda>v. fv_log (max minval v)"
          and c = "\<lambda>v. Fin (1 - v)" and d = "\<lambda>v. fv_log (1 - max minval v)", simplified comp_def, symmetric]
        cost_entry_def [abs_def] comp_def)
  show ?thesis
    unfolding get_cost_def ft st sum.case d e by (simp add: np_sum_def)
qed

lemma cost_entry_nonneg:
  assumes "y = 0 \<or> y = 1" "0 < h" "h < 1" "0 < e" "e < 1"
  shows "\<exists>c. cost_entry e y h = Fin c \<and> 0 \<le> c"
proof -
  define hc where "hc = max e h"
  have hc: "0 < hc" "hc < 1"
    using assms by (simp_all add: hc_def max_def)
  then have l1: "ln hc < 0" and l2: "ln (1 - hc) < 0"
    by (simp_all add: ln_less_zero)
  have "cost_entry e y h = Fin (- y * ln hc - (1 - y) * ln (1 - hc))"
    using hc by (simp add: cost_entry_def fv_log_def fv_sub_def hc_def [symmetric])
  moreover have "0 \<le> - y * ln hc - (1 - y) * ln (1 - hc)"
    using assms(1) l1 l2 by auto
  ultimately show ?thesis by blast
qed

lemma foldr_fv_add_nonneg:
  "list_all (\<lambda>v. \<exists>c. v = Fin c \<and> 0 \<le> c) xs \<Longrightarrow> \<exists>c. foldr fv_add xs (Fin 0) = Fin c \<and> 0 \<le> c"
  by (induction xs) auto

lemma cost_entries_nonneg:
  assumes "list_all (list_all (\<lambda>v. v = 0 \<or> v = 1)) ys"
    and "list_all (list_all (\<lambda>v. 0 < v \<and> v < 1)) hs" and "0 < e" "e < 1"
  shows "list_all (\<lambda>v. \<exists>c. v = Fin c \<and> 0 \<le> c) (concat (map2 (map2 (cost_entry e)) ys hs))"
  unfolding list_all_iff
proof
  fix v assume "v \<in> set (concat (map2 (map2 (cost_entry e)) ys hs))"
  then obtain ry rh a b where "(ry, rh) \<in> set (zip ys hs)" "(a, b) \<in> set (zip ry rh)"
    "v = cost_entry e a b"
    by auto
  then have "ry \<in> set ys" "rh \<in> set hs" "a \<in> set ry" "b \<in> set rh"
    by (auto elim: in_set_zipE)
  with assms(1,2) have "a = 0 \<or> a = 1" "0 < b" "b < 1"
    by (auto simp: list_all_iff)
  then show "\<exists>c. v = Fin c \<and> 0 \<le> c"
    using cost_entry_nonneg [OF _ _ _ assms(3,4)] \<open>v = cost_entry e a b\<close> by blast
qed

text \<open>
  Claim C9. For a one-hot label matrix and a prediction matrix of the same shape whose
  entries are strictly between 0 and 1, \<open>get_cost\<close> returns a finite cost that is not
  negative.
\<close>

theorem get_cost_nonneg:
  assumes "wf_mat y" "wf_mat h" "nrows h = nrows y" "ncols h = ncols y"
    and "one_hot y" "strictly_between h"
  shows "\<exists>c. get_cost y h (1 / 10 ^ 10) = Inr (Fin c) \<and> 0 \<le> c"
proof -
  have y01: "list_all (list_all (\<lambda>v. v = 0 \<or> v = 1)) (mrows y)"
    using assms(5) by (simp add: one_hot_def list_all_iff)
  have h01: "list_all (list_all (\<lambda>v. 0 < v \<and> v < 1)) (mrows h)"
    using assms(6) by (simp add: strictly_between_def)
  have "\<exists>c. foldr fv_add (concat (map2 (map2 (cost_entry (1 / 10 ^ 10))) (mrows y) (mrows h))) (Fin 0)
           = Fin c \<and> 0 \<le> c"
    by (rule foldr_fv_add_nonneg, rule cost_entries_nonneg [OF y01 h01]) simp_all
  then show ?thesis
    by (simp add: get_cost_same_shape [OF assms(1-4)])
qed

theorem get_cost_nonneg_witness:
  "\<exists>c. get_cost (Mat 2 [[1, 0], [0, 1]]) (Mat 2 [[3/4, 1/4], [1/2, 1/2]]) (1 / 10 ^ 10) = Inr (Fin c) \<and>
       0 \<le> c"
  by (rule get_cost_nonneg) (simp_all add: wf_mat_def nrows_def one_hot_def strictly_between_def)

section \<open>Forward propagation\<close>

lemma dot_sum:
  assumes "length a = n" "length b = n"
  shows "dot a b = (\<Sum>c<n. a ! c * b ! c)"
proof -
  have "sum_list (map2 (*) a b) = (\<Sum>c = 0..<length (map2 (*) a b). map2 (*) a b ! c)"
    by (rule sum_list_sum_nth)
  also have "\<dots> = (\<Sum>c = 0..<n. a ! c * b ! c)"
    using assms by (intro sum.cong) simp_all
  finally show ?thesis
    by (simp add: dot_def atLeast0LessThan)
qed

lemma map_nth_rows: "map (\<lambda>j. f (xs ! j)) [0..<length xs] = map f xs"
  by (rule nth_equalityI) simp_all

lemma col_transpose:
  assumes "wf_mat B" "j < nrows B"
  shows "map (\<lambda>r. r ! j) (mrows (transpose_mat B)) = mrows B ! j"
proof -
  have len: "length (mrows B ! j) = ncols B"
    using assms by (simp add: wf_mat_def nrows_def list_all_length)
  have "map (\<lambda>r. r ! j) (mrows (transpose_mat B)) = map (\<lambda>c. mrows B ! j ! c) [0..<ncols B]"
    using assms(2) by (simp add: transpose_mat_def nrows_def comp_def)
  also have "\<dots> = mrows B ! j"
    using map_nth [of "mrows B ! j"] len by simp
  finally show ?thesis .
qed

lemma np_matmul_transpose:
  assumes "wf_mat B" "ncols A = ncols B"
  shows "np_matmul A (transpose_mat B) =
           Inr (Mat (nrows B) (map (\<lambda>a. map (dot a) (mrows B)) (mrows A)))"
proof -
  have sh: "nrows (transpose_mat B) = ncols B" "ncols (transpose_mat B) = nrows B"
    by (simp_all add: transpose_mat_def nrows_def)
  have "map (\<lambda>j. dot a (map (\<lambda>r. r ! j) (mrows (transpose_mat B)))) [0..<nrows B] =
        map (dot a) (mrows B)" for a
  proof -
    have "map (\<lambda>j. dot a (map (\<lambda>r. r ! j) (mrows (transpose_mat B)))) [0..<nrows B] =
          map (\<lambda>j. dot a (mrows B ! j)) [0..<nrows B]"
      using assms(1) by (intro map_cong refl) (simp add: col_transpose)
    then show ?thesis
      by (simp add: nrows_def map_nth_rows)
  qed
  then show ?thesis
    using assms(2) by (simp add: np_matmul_def sh)
qed

lemma wf_insert_ones [simp]: "wf_mat (insert_ones A) = wf_mat A"
  by (simp add: wf_mat_def insert_ones_def list_all_iff)

lemma nrows_insert_ones [simp]: "nrows (insert_ones A) = nrows A"
  by (simp add: nrows_def insert_ones_def)

lemma ncols_insert_ones [simp]: "ncols (insert_ones A) = ncols A + 1"
  by (simp add: insert_ones_def)

lemma wf_prod_transposed [simp]: "wf_mat (prod_transposed A B)"
  by (simp add: wf_mat_def prod_transposed_def list_all_iff nrows_def)

lemma nrows_prod_transposed [simp]: "nrows (prod_transposed A B) = nrows A"
  by (simp add: nrows_def prod_transposed_def)

lemma ncols_prod_transposed [simp]: "ncols (prod_transposed A B) = nrows B"
  by (simp add: prod_transposed_def)

lemma np_matmul_T:
  assumes "wf_mat B" "ncols A = ncols B"
  shows "np_matmul A (transpose_mat B) = Inr (prod_transposed A B)"
  using np_matmul_transpose [OF assms] by (simp add: prod_transposed_def)

lemma feed_forward_ok:
  assumes "wf_mat T1" "wf_mat T2" "ncols T1 = ncols X + 1" "ncols T2 = nrows T1 + 1"
  shows "feed_forward X T1 T2 =
     Inr (insert_ones X,
          prod_transposed (insert_ones X) T1,
          insert_ones (map_mat sigmoid (prod_transposed (insert_ones X) T1)),
          prod_transposed (insert_ones (map_mat sigmoid (prod_transposed (insert_ones X) T1))) T2,
          map_mat sigmoid
            (prod_transposed (insert_ones (map_mat sigmoid (prod_transposed (insert_ones X) T1))) T2))"
proof -
  have 1: "np_matmul (insert_ones X) (transpose_mat T1) = Inr (prod_transposed (insert_ones X) T1)"
    using assms by (intro np_matmul_T) simp_all
  have 2: "np_matmul (insert_ones (map_mat sigmoid (prod_transposed (insert_ones X) T1)))
             (transpose_mat T2) =
           Inr (prod_transposed (insert_ones (map_mat sigmoid (prod_transposed (insert_ones X) T1))) T2)"
    using assms by (intro np_matmul_T) simp_all
  show ?thesis
    by (simp add: feed_forward_def Let_def 1 2)
qed

lemma ent_prod_transposed:
  assumes "wf_mat A" "wf_mat B" "ncols A = ncols B" "i < nrows A" "j < nrows B"
  shows "ent (prod_transposed A B) i j = mat_prod_T A B i j"
proof -
  have "length (mrows A ! i) = ncols A" "length (mrows B ! j) = ncols A"
    using assms by (simp_all add: wf_mat_def nrows_def list_all_length)
  then have "dot (mrows A ! i) (mrows B ! j) = (\<Sum>c<ncols A. mrows A ! i ! c * mrows B ! j ! c)"
    by (rule dot_sum)
  then show ?thesis
    using assms(4,5) by (simp add: ent_def prod_transposed_def mat_prod_T_def nrows_def)
qed

text \<open>
  Claim C8. For a well-formed input \<open>X\<close> with \<open>m\<close> rows and \<open>k\<close> columns and weight
  matrices \<open>Theta1\<close> of shape \<open>(hidden, k + 1)\<close> and \<open>Theta2\<close> of shape
  \<open>(num_labels, hidden + 1)\<close>, \<open>feed_forward\<close> returns \<open>(a1, z2, a2, z3, h)\<close> where \<open>a1\<close> is
  \<open>X\<close> with a column of ones in front, \<open>z2 = a1 \<cdot> Theta1\<^sup>T\<close>, \<open>a2\<close> is the sigmoid of
  \<open>z2\<close> with a column of ones in front, \<open>z3 = a2 \<cdot> Theta2\<^sup>T\<close> and \<open>h\<close> is the sigmoid
  of \<open>z3\<close>, of shape \<open>(m, num_labels)\<close>. The number of rows is arbitrary, so one row and
  the whole data set are treated alike.
\<close>

theorem feed_forward_quintuple:
  assumes "wf_mat X" "wf_mat T1" "wf_mat T2"
    and "ncols T1 = ncols X + 1" "ncols T2 = nrows T1 + 1"
  shows "\<exists>a1 z2 a2 z3 h.
     feed_forward X T1 T2 = Inr (a1, z2, a2, z3, h) \<and>
     a1 = Mat (ncols X + 1) (map (\<lambda>r. 1 # r) (mrows X)) \<and>
     wf_mat z2 \<and> nrows z2 = nrows X \<and> ncols z2 = nrows T1 \<and>
     (\<forall>i<nrows X. \<forall>j<nrows T1. ent z2 i j = mat_prod_T a1 T1 i j) \<and>
     a2 = Mat (nrows T1 + 1) (map (\<lambda>r. 1 # map sigmoid r) (mrows z2)) \<and>
     wf_mat z3 \<and> nrows z3 = nrows X \<and> ncols z3 = nrows T2 \<and>
     (\<forall>i<nrows X. \<forall>j<nrows T2. ent z3 i j = mat_prod_T a2 T2 i j) \<and>
     wf_mat h \<and> nrows h = nrows X \<and> ncols h = nrows T2 \<and>
     (\<forall>i<nrows X. \<forall>j<nrows T2. ent h i j = sigmoid (ent z3 i j))"
proof -
  define a1 where "a1 = insert_ones X"
  define z2 where "z2 = prod_transposed a1 T1"
  define a2 where "a2 = insert_ones (map_mat sigmoid z2)"
  define z3 where "z3 = prod_transposed a2 T2"
  define h where "h = map_mat sigmoid z3"
  have ff: "feed_forward X T1 T2 = Inr (a1, z2, a2, z3, h)"
    unfolding a1_def z2_def a2_def z3_def h_def
    by (rule feed_forward_ok) (use assms in simp_all)
  have wa1: "wf_mat a1" "nrows a1 = nrows X" "ncols a1 = ncols T1"
    using assms by (simp_all add: a1_def)
  have wa2: "wf_mat a2" "nrows a2 = nrows X" "ncols a2 = ncols T2"
    using assms by (simp_all add: a2_def z2_def a1_def)
  have e2: "\<forall>i<nrows X. \<forall>j<nrows T1. ent z2 i j = mat_prod_T a1 T1 i j"
    using wa1 assms(2) by (simp add: z2_def ent_prod_transposed)
  have e3: "\<forall>i<nrows X. \<forall>j<nrows T2. ent z3 i j = mat_prod_T a2 T2 i j"
    using wa2 assms(3) by (simp add: z3_def ent_prod_transposed)
  have wz3: "wf_mat z3" "nrows z3 = nrows X" "ncols z3 = nrows T2"
    using wa2 by (simp_all add: z3_def)
  have eh: "\<forall>i<nrows X. \<forall>j<nrows T2. ent h i j = sigmoid (ent z3 i j)"
  proof (intro allI impI)
    fix i j assume "i < nrows X" "j < nrows T2"
    then have "i < length (mrows z3)" "j < length (mrows z3 ! i)"
      using wz3 by (simp_all add: nrows_def wf_mat_def list_all_length)
    then show "ent h i j = sigmoid (ent z3 i j)"
      by (simp add: h_def ent_def)
  qed
  have "a1 = Mat (ncols X + 1) (map (\<lambda>r. 1 # r) (mrows X))"
    by (simp add: a1_def insert_ones_def)
  moreover have "a2 = Mat (nrows T1 + 1) (map (\<lambda>r. 1 # map sigmoid r) (mrows z2))"
    by (simp add: a2_def insert_ones_def z2_def)
  moreover have "wf_mat z2" "nrows z2 = nrows X" "ncols z2 = nrows T1"
    using wa1 by (simp_all add: z2_def)
  moreover have "wf_mat h" "nrows h = nrows X" "ncols h = nrows T2"
    using wz3 by (simp_all add: h_def)
  ultimately show ?thesis
    using ff e2 e3 eh wz3 by blast
qed

theorem feed_forward_quintuple_witness:
  "\<exists>a1 z2 a2 z3 h.
     feed_forward (Mat 1 [[1]]) (Mat 2 [[1/8, -1/8]]) (Mat 2 [[0, 1/16], [-1/16, 1/8]]) =
       Inr (a1, z2, a2, z3, h) \<and>
     a1 = Mat 2 [[1, 1]] \<and>
     ent z2 0 0 = mat_prod_T a1 (Mat 2 [[1/8, -1/8]]) 0 0 \<and>
     a2 = Mat 2 [[1, sigmoid (ent z2 0 0)]] \<and>
     ent z3 0 1 = mat_prod_T a2 (Mat 2 [[0, 1/16], [-1/16, 1/8]]) 0 1 \<and>
     nrows h = 1 \<and> ncols h = 2 \<and>
     ent h 0 0 = sigmoid (ent z3 0 0) \<and> ent h 0 1 = sigmoid (ent z3 0 1)"
proof -
  let ?X = "Mat 1 [[1::real]]"
  let ?T1 = "Mat 2 [[1/8, -1/8::real]]"
  let ?T2 = "Mat 2 [[0, 1/16], [-1/16, 1/8::real]]"
  have sh: "nrows ?X = 1" "nrows ?T1 = 1" "nrows ?T2 = 2"
    by (simp_all add: nrows_def)
  have "wf_mat ?X" "wf_mat ?T1" "wf_mat ?T2" "ncols ?T1 = ncols ?X + 1" "ncols ?T2 = nrows ?T1 + 1"
    by (simp_all add: wf_mat_def nrows_def)
  from feed_forward_quintuple [OF this] obtain a1 z2 a2 z3 h where
    ff: "feed_forward ?X ?T1 ?T2 = Inr (a1, z2, a2, z3, h)"
    and a1: "a1 = Mat (ncols ?X + 1) (map (\<lambda>r. 1 # r) (mrows ?X))"
    and z2: "wf_mat z2" "nrows z2 = nrows ?X" "ncols z2 = nrows ?T1"
      "\<forall>i<nrows ?X. \<forall>j<nrows ?T1. ent z2 i j = mat_prod_T a1 ?T1 i j"
    and a2: "a2 = Mat (nrows ?T1 + 1) (map (\<lambda>r. 1 # map sigmoid r) (mrows z2))"
    and z3: "\<forall>i<nrows ?X. \<forall>j<nrows ?T2. ent z3 i j = mat_prod_T a2 ?T2 i j"
    and h: "nrows h = nrows ?X" "ncols h = nrows ?T2"
      "\<forall>i<nrows ?X. \<forall>j<nrows ?T2. ent h i j = sigmoid (ent z3 i j)"
    by blast
  obtain r where r: "mrows z2 = [[r]]"
    using z2(1-3) unfolding sh wf_mat_def nrows_def
    by (cases z2; cases "mrows z2"; cases "hd (mrows z2)"; cases "tl (hd (mrows z2))") auto
  have "a2 = Mat 2 [[1, sigmoid (ent z2 0 0)]]"
    using a2 r by (simp add: nrows_def ent_def)
  then show ?thesis
    using ff a1 z2(4) z3 h unfolding sh by (intro exI [of _ a1] exI [of _ z2] exI [of _ a2] exI [of _ z3] exI [of _ h]) simp
qed

section \<open>One pass over correctly shaped arguments\<close>

lemma shaped_transpose: "shaped r c A \<Longrightarrow> shaped c r (transpose_mat A)"
  by (auto simp: shaped_def wf_mat_def transpose_mat_def nrows_def list_all_iff)

lemma np_matmul_shaped:
  assumes "ncols A = nrows B"
  shows "\<exists>M. np_matmul A B = Inr M \<and> shaped (nrows A) (ncols B) M"
  using assms by (simp add: np_matmul_def shaped_def wf_mat_def nrows_def list_all_iff)

lemma np_broadcast2_shaped:
  assumes "shaped r c A" "shaped r c B"
  shows "\<exists>M. np_broadcast2 f A B = Inr M \<and> shaped r c M"
proof -
  have "wf_mat (Mat (ncols A) (map2 (map2 f) (mrows A) (mrows B)))"
    unfolding wf_mat_def mat.sel
    by (rule wf_map2_rows) (use assms in \<open>auto simp: shaped_def wf_mat_def\<close>)
  then show ?thesis
    using assms np_broadcast2_same [of A B f] by (simp add: shaped_def nrows_def)
qed

lemma row_at_shaped:
  assumes "shaped r c A" "t < r"
  shows "\<exists>R. row_at A t = Inr R \<and> shaped 1 c R"
  using assms by (simp add: row_at_def shaped_def wf_mat_def nrows_def list_all_length)

lemma shaped_tail_cols: "shaped r c A \<Longrightarrow> shaped r (c - 1) (tail_cols A)"
  by (auto simp: shaped_def wf_mat_def tail_cols_def nrows_def list_all_iff)

lemma shaped_map_mat: "shaped r c A \<Longrightarrow> shaped r c (map_mat f A)"
  by (simp add: shaped_def)

lemma shaped_insert_one_flat:
  assumes "shaped 1 c A"
  shows "shaped 1 (c + 1) (insert_one_flat A)"
proof -
  obtain n rs where A: "A = Mat n rs" by (cases A)
  with assms obtain x where "rs = [x]" "length x = c"
    by (cases rs) (auto simp: shaped_def wf_mat_def nrows_def)
  then show ?thesis
    by (simp add: A insert_one_flat_def np_ravel_def shaped_def wf_mat_def nrows_def)
qed

lemma shaped_zeros_like: "shaped r c A \<Longrightarrow> shaped r c (np_zeros_like A)"
  by (auto simp: shaped_def wf_mat_def np_zeros_like_def nrows_def list_all_iff)

lemma backprop_step_ok:
  assumes th2: "shaped nl (hs + 1) theta2"
    and a1: "shaped m (i + 1) a1" and z2: "shaped m hs z2" and a2: "shaped m (hs + 1) a2"
    and h: "shaped m nl h" and y: "shaped m nl y" and t: "t < m"
    and d1: "shaped hs (i + 1) (fst acc)" and d2: "shaped nl (hs + 1) (snd acc)"
  shows "\<exists>acc'. backprop_step theta2 a1 z2 a2 h y t acc = Inr acc' \<and>
           shaped hs (i + 1) (fst acc') \<and> shaped nl (hs + 1) (snd acc')"
proof -
  obtain a1t where a1t: "row_at a1 t = Inr a1t" "shaped 1 (i + 1) a1t"
    using row_at_shaped [OF a1 t] by blast
  obtain z2t where z2t: "row_at z2 t = Inr z2t" "shaped 1 hs z2t"
    using row_at_shaped [OF z2 t] by blast
  obtain a2t where a2t: "row_at a2 t = Inr a2t" "shaped 1 (hs + 1) a2t"
    using row_at_shaped [OF a2 t] by blast
  obtain ht where ht: "row_at h t = Inr ht" "shaped 1 nl ht"
    using row_at_shaped [OF h t] by blast
  obtain yt where yt: "row_at y t = Inr yt" "shaped 1 nl yt"
    using row_at_shaped [OF y t] by blast
  obtain d3t where d3t: "np_broadcast2 (-) ht yt = Inr d3t" "shaped 1 nl d3t"
    using np_broadcast2_shaped [OF ht(2) yt(2)] by blast
  have "ncols (transpose_mat theta2) = nrows (transpose_mat d3t)"
    using shaped_transpose [OF th2] shaped_transpose [OF d3t(2)] by (simp add: shaped_def)
  from np_matmul_shaped [OF this]
  obtain p where p: "np_matmul (transpose_mat theta2) (transpose_mat d3t) = Inr p" "shaped (hs + 1) 1 p"
    using shaped_transpose [OF th2] shaped_transpose [OF d3t(2)] by (auto simp: shaped_def)
  have sg: "shaped 1 (hs + 1) (map_mat sigmoid_gradient (insert_one_flat z2t))"
    by (intro shaped_map_mat shaped_insert_one_flat z2t)
  obtain d2t where d2t:
    "np_broadcast2 (*) (transpose_mat p) (map_mat sigmoid_gradient (insert_one_flat z2t)) = Inr d2t"
    "shaped 1 (hs + 1) d2t"
    using np_broadcast2_shaped [OF shaped_transpose [OF p(2)] sg] by blast
  have tc: "shaped hs 1 (transpose_mat (tail_cols d2t))"
    using shaped_transpose [OF shaped_tail_cols [OF d2t(2)]] by simp
  then have "ncols (transpose_mat (tail_cols d2t)) = nrows a1t"
    using a1t(2) by (simp add: shaped_def)
  from np_matmul_shaped [OF this]
  obtain g1 where g1: "np_matmul (transpose_mat (tail_cols d2t)) a1t = Inr g1" "shaped hs (i + 1) g1"
    using tc a1t(2) by (auto simp: shaped_def)
  obtain delta1 where delta1: "np_broadcast2 (+) (fst acc) g1 = Inr delta1" "shaped hs (i + 1) delta1"
    using np_broadcast2_shaped [OF d1 g1(2)] by blast
  have td: "shaped nl 1 (transpose_mat d3t)"
    by (rule shaped_transpose [OF d3t(2)])
  then have "ncols (transpose_mat d3t) = nrows a2t"
    using a2t(2) by (simp add: shaped_def)
  from np_matmul_shaped [OF this]
  obtain g2 where g2: "np_matmul (transpose_mat d3t) a2t = Inr g2" "shaped nl (hs + 1) g2"
    using td a2t(2) by (auto simp: shaped_def)
  obtain delta2 where delta2: "np_broadcast2 (+) (snd acc) g2 = Inr delta2" "shaped nl (hs + 1) delta2"
    using np_broadcast2_shaped [OF d2 g2(2)] by blast
  have "backprop_step theta2 a1 z2 a2 h y t acc = Inr (delta1, delta2)"
    by (simp add: backprop_step_def bind_err_def a1t z2t a2t ht yt d3t p d2t g1 delta1 g2 delta2)
  then show ?thesis
    using delta1(2) delta2(2) by simp
qed

lemma backprop_loop_ok:
  assumes "shaped nl (hs + 1) theta2"
    and "shaped m (i + 1) a1" and "shaped m hs z2" and "shaped m (hs + 1) a2"
    and "shaped m nl h" and "shaped m nl y" and "list_all (\<lambda>t. t < m) ts"
    and "shaped hs (i + 1) (fst acc)" and "shaped nl (hs + 1) (snd acc)"
  shows "\<exists>acc'. backprop_loop theta2 a1 z2 a2 h y ts acc = Inr acc' \<and>
           shaped hs (i + 1) (fst acc') \<and> shaped nl (hs + 1) (snd acc')"
  using assms(7-9)
proof (induction ts arbitrary: acc)
  case Nil
  then show ?case by simp
next
  case (Cons t ts)
  then have "t < m" by simp
  from backprop_step_ok [OF assms(1-6) this Cons.prems(2,3)]
  obtain acc' where s: "backprop_step theta2 a1 z2 a2 h y t acc = Inr acc'"
    "shaped hs (i + 1) (fst acc')" "shaped nl (hs + 1) (snd acc')"
    by blast
  from Cons.IH [OF _ s(2,3)] Cons.prems(1) show ?case
    by (simp add: s(1))
qed

lemma reg_row:
  fixes g f :: "real \<Rightarrow> real"
  assumes "length d = c" "length t = c" "0 < c"
  shows "length (take 1 (map g d) @ map2 (+) (tl (map g d)) (map f (tl t))) = c"
    and "(take 1 (map g d) @ map2 (+) (tl (map g d)) (map f (tl t))) ! 0 = g (d ! 0)"
    and "\<And>j. 0 < j \<Longrightarrow> j < c \<Longrightarrow>
           (take 1 (map g d) @ map2 (+) (tl (map g d)) (map f (tl t))) ! j = g (d ! j) + f (t ! j)"
proof -
  obtain x xs where d: "d = x # xs" using assms by (cases d) auto
  obtain u us where t: "t = u # us" using assms by (cases t) auto
  have R: "take 1 (map g d) @ map2 (+) (tl (map g d)) (map f (tl t)) =
           g x # map2 (+) (map g xs) (map f us)"
    by (simp add: d t)
  have l: "length xs = length us" "Suc (length us) = c"
    using assms(1,2) by (auto simp: d t)
  show "length (take 1 (map g d) @ map2 (+) (tl (map g d)) (map f (tl t))) = c"
    unfolding R using l by simp
  show "(take 1 (map g d) @ map2 (+) (tl (map g d)) (map f (tl t))) ! 0 = g (d ! 0)"
    unfolding R by (simp add: d)
  show "(take 1 (map g d) @ map2 (+) (tl (map g d)) (map f (tl t))) ! j = g (d ! j) + f (t ! j)"
    if "0 < j" "j < c" for j
  proof -
    from that obtain k where k: "j = Suc k" "k < length us"
      using l by (cases j) auto
    then show ?thesis unfolding R using l by (simp add: d t)
  qed
qed

lemma regularize_ok:
  assumes d: "shaped r c delta" and th: "shaped r c theta" and c: "0 < c"
  shows "\<exists>R. regularize l m delta theta = Inr R \<and> shaped r c R \<and>
           (\<forall>i<r. ent R i 0 = ent delta i 0 / real m \<and>
              (\<forall>j. 0 < j \<and> j < c \<longrightarrow>
                 ent R i j = ent delta i j / real m + ent theta i j * l / real m))"
proof -
  define dm where "dm = map_mat (\<lambda>v. v / real m) delta"
  define S where "S = Mat (c - 1) (map2 (map2 (+)) (mrows (tail_cols dm))
                        (mrows (map_mat (\<lambda>v. v * l / real m) (tail_cols theta))))"
  define R where "R = Mat c (map2 (\<lambda>d r. take 1 d @ r) (mrows dm) (mrows S))"
  have sdm: "shaped r c dm"
    using d by (simp add: dm_def shaped_map_mat)
  have s1: "shaped r (c - 1) (tail_cols dm)"
    by (rule shaped_tail_cols [OF sdm])
  have s2: "shaped r (c - 1) (map_mat (\<lambda>v. v * l / real m) (tail_cols theta))"
    by (intro shaped_map_mat shaped_tail_cols th)
  have bc: "np_broadcast2 (+) (tail_cols dm) (map_mat (\<lambda>v. v * l / real m) (tail_cols theta)) = Inr S"
    using s1 s2 np_broadcast2_same [of "tail_cols dm" "map_mat (\<lambda>v. v * l / real m) (tail_cols theta)" "(+)"]
    by (simp add: shaped_def S_def)
  have lens: "length (mrows delta) = r" "length (mrows theta) = r"
    using d th by (simp_all add: shaped_def nrows_def)
  have nS: "nrows S = r" "ncols S = c - 1"
    using lens by (simp_all add: S_def nrows_def tail_cols_def dm_def)
  have reg: "regularize l m delta theta = Inr R"
    using sdm nS
    by (simp add: regularize_def Let_def dm_def [symmetric] bc bind_err_def assign_tail_cols_def
        R_def shaped_def)
  have row: "mrows R ! i = take 1 (map (\<lambda>v. v / real m) (mrows delta ! i)) @
       map2 (+) (tl (map (\<lambda>v. v / real m) (mrows delta ! i)))
         (map (\<lambda>v. v * l / real m) (tl (mrows theta ! i)))" if "i < r" for i
    using that lens by (simp add: R_def S_def dm_def tail_cols_def)
  have len: "length (mrows delta ! i) = c" "length (mrows theta ! i) = c" if "i < r" for i
    using that d th by (simp_all add: shaped_def wf_mat_def nrows_def list_all_length)
  have "shaped r c R"
  proof -
    have "length (mrows R) = r"
      using lens by (simp add: R_def S_def dm_def tail_cols_def)
    moreover have "length (mrows R ! i) = c" if "i < r" for i
      unfolding row [OF that] by (rule reg_row(1) [OF len [OF that] c])
    ultimately show ?thesis
      by (simp add: shaped_def wf_mat_def nrows_def list_all_length R_def)
  qed
  moreover have "ent R i 0 = ent delta i 0 / real m" if "i < r" for i
    unfolding ent_def row [OF that] by (rule reg_row(2) [OF len [OF that] c])
  moreover have "ent R i j = ent delta i j / real m + ent theta i j * l / real m"
    if "i < r" "0 < j" "j < c" for i j
    unfolding ent_def row [OF that(1)] by (rule reg_row(3) [OF len [OF that(1)] c that(2,3)])
  ultimately show ?thesis
    using reg by blast
qed

lemma reshape_theta_shaped:
  assumes "length ps = params_size self"
  obtains T1 T2 where "reshape_theta self ps = Inr (T1, T2)"
    and "shaped (hidden_size self) (input_size self + 1) T1"
    and "shaped (num_labels self) (hidden_size self + 1) T2"
proof -
  let ?n1 = "hidden_size self * (input_size self + 1)"
  have l1: "length (take ?n1 ps) = hidden_size self * (input_size self + 1)"
    using assms by (simp add: params_size_def)
  have l2: "length (drop ?n1 ps) = num_labels self * (hidden_size self + 1)"
    using assms by (simp add: params_size_def)
  show ?thesis
    using chop_rows [OF l1] chop_rows [OF l2] reshape_theta_ok [OF assms]
    by (intro that) (auto simp: shaped_def wf_mat_def nrows_def length_chop)
qed

lemma reshape_theta_sizes:
  assumes "input_size s = input_size self" "hidden_size s = hidden_size self"
    "num_labels s = num_labels self"
  shows "reshape_theta s ps = reshape_theta self ps"
  unfolding reshape_theta_def assms ..

lemma fit_trace:
  assumes ws: "well_shaped self ps X y"
  obtains T1 T2 c D1 D2 where
    "reshape_theta self ps = Inr (T1, T2)"
    and "shaped (hidden_size self) (input_size self + 1) T1"
    and "shaped (num_labels self) (hidden_size self + 1) T2"
    and "shaped (hidden_size self) (input_size self + 1) D1"
    and "shaped (num_labels self) (hidden_size self + 1) D2"
    and "\<forall>s out. same_sizes s self \<longrightarrow>
           (\<exists>R1 R2. regularize (lam s) (nrows X) D1 T1 = Inr R1 \<and>
              regularize (lam s) (nrows X) D2 T2 = Inr R2 \<and>
              fit s ps X y out =
                (Inr (fv_add (fv_div_nat c (nrows X)) (Fin (reg_cost (lam s) (nrows X) T1 T2)),
                      flatten R1 R2),
                 if out
                 then s\<lparr>writer := writer s @
                        [WCost (fv_add (fv_div_nat c (nrows X))
                                  (Fin (reg_cost (lam s) (nrows X) T1 T2)))]\<rparr>
                 else s))"
proof -
  let ?hs = "hidden_size self" and ?i = "input_size self" and ?nl = "num_labels self"
  let ?m = "nrows X"
  from ws have len: "length ps = params_size self" and X: "shaped ?m ?i X" and m: "0 < ?m"
    and y: "shaped ?m ?nl y"
    by (simp_all add: well_shaped_def shaped_def)
  from reshape_theta_shaped [OF len] obtain T1 T2 where
    rt: "reshape_theta self ps = Inr (T1, T2)" and T1: "shaped ?hs (?i + 1) T1"
    and T2: "shaped ?nl (?hs + 1) T2"
    by blast
  define a1 where "a1 = insert_ones X"
  define z2 where "z2 = prod_transposed a1 T1"
  define a2 where "a2 = insert_ones (map_mat sigmoid z2)"
  define z3 where "z3 = prod_transposed a2 T2"
  define h where "h = map_mat sigmoid z3"
  have ff: "feed_forward X T1 T2 = Inr (a1, z2, a2, z3, h)"
    unfolding a1_def z2_def a2_def z3_def h_def
    by (rule feed_forward_ok) (use T1 T2 X in \<open>simp_all add: shaped_def\<close>)
  have sa1: "shaped ?m (?i + 1) a1"
    using X by (simp add: a1_def shaped_def)
  have sz2: "shaped ?m ?hs z2"
    using sa1 T1 by (simp add: z2_def shaped_def)
  have sa2: "shaped ?m (?hs + 1) a2"
    using sz2 by (simp add: a2_def shaped_def)
  have sz3: "shaped ?m ?nl z3"
    using sa2 T2 by (simp add: z3_def shaped_def)
  have sh: "shaped ?m ?nl h"
    using sz3 by (simp add: h_def shaped_def)
  obtain c where gc: "get_cost y h (1 / 10 ^ 10) = Inr c"
    using get_cost_same_shape [of y h "1 / 10 ^ 10"] y sh by (simp add: shaped_def)
  have ts: "list_all (\<lambda>t. t < ?m) [0..<?m]"
    by (simp add: list_all_iff)
  from backprop_loop_ok [OF T2 sa1 sz2 sa2 sh y ts, of "(np_zeros_like T1, np_zeros_like T2)"]
  obtain D1 D2 where bl:
    "backprop_loop T2 a1 z2 a2 h y [0..<?m] (np_zeros_like T1, np_zeros_like T2) = Inr (D1, D2)"
    and D1: "shaped ?hs (?i + 1) D1" and D2: "shaped ?nl (?hs + 1) D2"
    using shaped_zeros_like [OF T1] shaped_zeros_like [OF T2] by auto
  have main: "\<exists>R1 R2. regularize (lam s) ?m D1 T1 = Inr R1 \<and>
              regularize (lam s) ?m D2 T2 = Inr R2 \<and>
              fit s ps X y out =
                (Inr (fv_add (fv_div_nat c ?m) (Fin (reg_cost (lam s) ?m T1 T2)), flatten R1 R2),
                 if out
                 then s\<lparr>writer := writer s @
                        [WCost (fv_add (fv_div_nat c ?m) (Fin (reg_cost (lam s) ?m T1 T2)))]\<rparr>
                 else s)" if "same_sizes s self" for s out
  proof -
    have rt': "reshape_theta s ps = Inr (T1, T2)"
      using that rt reshape_theta_sizes [of s self ps] by (simp add: same_sizes_def)
    obtain R1 where R1: "regularize (lam s) ?m D1 T1 = Inr R1"
      using regularize_ok [OF D1 T1, of "lam s" ?m] by auto
    obtain R2 where R2: "regularize (lam s) ?m D2 T2 = Inr R2"
      using regularize_ok [OF D2 T2, of "lam s" ?m] by auto
    have "fit s ps X y out =
           (Inr (fv_add (fv_div_nat c ?m) (Fin (reg_cost (lam s) ?m T1 T2)), flatten R1 R2),
            if out
            then s\<lparr>writer := writer s @
                   [WCost (fv_add (fv_div_nat c ?m) (Fin (reg_cost (lam s) ?m T1 T2)))]\<rparr>
            else s)"
      unfolding fit_def Let_def rt' sum.case prod.case ff gc bl bind_err_def fst_conv snd_conv R1 R2
      using m by simp
    with R1 R2 show ?thesis by blast
  qed
  show thesis
    by (rule that [OF rt T1 T2 D1 D2]) (use main in blast)
qed

lemma reshape_theta_flatten:
  assumes "shaped (hidden_size self) (input_size self + 1) T1"
    and "shaped (num_labels self) (hidden_size self + 1) T2"
  shows "reshape_theta self (flatten T1 T2) = Inr (T1, T2)"
proof -
  obtain c1 r1 where T1: "T1 = Mat c1 r1" by (cases T1)
  obtain c2 r2 where T2: "T2 = Mat c2 r2" by (cases T2)
  from assms(1) T1 have r1: "list_all (\<lambda>x. length x = input_size self + 1) r1"
    "length r1 = hidden_size self" "c1 = input_size self + 1"
    by (auto simp: shaped_def wf_mat_def nrows_def)
  from assms(2) T2 have r2: "list_all (\<lambda>x. length x = hidden_size self + 1) r2"
    "length r2 = num_labels self" "c2 = hidden_size self + 1"
    by (auto simp: shaped_def wf_mat_def nrows_def)
  have l1: "length (concat r1) = hidden_size self * (input_size self + 1)"
    using length_concat_rows [OF r1(1)] r1(2) by simp
  have l2: "length (concat r2) = num_labels self * (hidden_size self + 1)"
    using length_concat_rows [OF r2(1)] r2(2) by simp
  show ?thesis
    using l1 l2 r1 r2 chop_concat [OF r1(2) r1(1)] chop_concat [OF r2(2) r2(1)]
    by (simp add: reshape_theta_def np_reshape_def flatten_def np_ravel_def T1 T2)
qed

text \<open>
  Claim C5. Regularization leaves the bias columns alone. For correctly shaped
  arguments, \<open>fit\<close> with regularization strength \<open>l\<close> and \<open>fit\<close> with strength 0 both
  return a gradient; seen as matrices of the shapes of the two weight matrices, the two
  gradients agree in column 0, and in every other column the gradient for \<open>l\<close> is the
  gradient for 0 plus \<open>l / m\<close> times the weight at that place.
\<close>

theorem regularization_excludes_bias:
  assumes ws: "well_shaped self ps X y"
  shows "\<exists>J J0 g g0 G1 G2 H1 H2 T1 T2.
     fst (fit (self\<lparr>lam := l\<rparr>) ps X y out) = Inr (J, g) \<and>
     fst (fit (self\<lparr>lam := 0\<rparr>) ps X y out) = Inr (J0, g0) \<and>
     reshape_theta self g = Inr (G1, G2) \<and>
     reshape_theta self g0 = Inr (H1, H2) \<and>
     reshape_theta self ps = Inr (T1, T2) \<and>
     (\<forall>r<hidden_size self.
        ent G1 r 0 = ent H1 r 0 \<and>
        (\<forall>c. 0 < c \<and> c < input_size self + 1 \<longrightarrow>
           ent G1 r c = ent H1 r c + l / real (nrows X) * ent T1 r c)) \<and>
     (\<forall>r<num_labels self.
        ent G2 r 0 = ent H2 r 0 \<and>
        (\<forall>c. 0 < c \<and> c < hidden_size self + 1 \<longrightarrow>
           ent G2 r c = ent H2 r c + l / real (nrows X) * ent T2 r c))"
proof -
  let ?sl = "self\<lparr>lam := l\<rparr>" and ?s0 = "self\<lparr>lam := 0\<rparr>"
  let ?hs = "hidden_size self" and ?i = "input_size self" and ?nl = "num_labels self"
  let ?m = "nrows X"
  obtain T1 T2 c D1 D2 where
    rt: "reshape_theta self ps = Inr (T1, T2)"
    and T1: "shaped ?hs (?i + 1) T1" and T2: "shaped ?nl (?hs + 1) T2"
    and D1: "shaped ?hs (?i + 1) D1" and D2: "shaped ?nl (?hs + 1) D2"
    and tr: "\<forall>s out. same_sizes s self \<longrightarrow>
           (\<exists>R1 R2. regularize (lam s) ?m D1 T1 = Inr R1 \<and>
              regularize (lam s) ?m D2 T2 = Inr R2 \<and>
              fit s ps X y out =
                (Inr (fv_add (fv_div_nat c ?m) (Fin (reg_cost (lam s) ?m T1 T2)), flatten R1 R2),
                 if out
                 then s\<lparr>writer := writer s @
                        [WCost (fv_add (fv_div_nat c ?m) (Fin (reg_cost (lam s) ?m T1 T2)))]\<rparr>
                 else s))"
    by (rule fit_trace [OF ws])
  have ssl: "same_sizes ?sl self" and ss0: "same_sizes ?s0 self"
    by (simp_all add: same_sizes_def)
  from tr [rule_format, OF ssl, of out] obtain R1 R2 where
    R1: "regularize l ?m D1 T1 = Inr R1" and R2: "regularize l ?m D2 T2 = Inr R2"
    and fl: "fst (fit ?sl ps X y out) =
               Inr (fv_add (fv_div_nat c ?m) (Fin (reg_cost l ?m T1 T2)), flatten R1 R2)"
    by (elim exE conjE) simp
  from tr [rule_format, OF ss0, of out] obtain S1 S2 where
    S1: "regularize 0 ?m D1 T1 = Inr S1" and S2: "regularize 0 ?m D2 T2 = Inr S2"
    and f0: "fst (fit ?s0 ps X y out) =
               Inr (fv_add (fv_div_nat c ?m) (Fin (reg_cost 0 ?m T1 T2)), flatten S1 S2)"
    by (elim exE conjE) simp
  have c1: "0 < ?i + 1" and c2: "0 < ?hs + 1" by simp_all
  from regularize_ok [OF D1 T1 c1, of l ?m] R1 have sR1: "shaped ?hs (?i + 1) R1"
    and eR1: "\<forall>r<?hs. ent R1 r 0 = ent D1 r 0 / real ?m \<and>
       (\<forall>j. 0 < j \<and> j < ?i + 1 \<longrightarrow> ent R1 r j = ent D1 r j / real ?m + ent T1 r j * l / real ?m)"
    by auto
  from regularize_ok [OF D2 T2 c2, of l ?m] R2 have sR2: "shaped ?nl (?hs + 1) R2"
    and eR2: "\<forall>r<?nl. ent R2 r 0 = ent D2 r 0 / real ?m \<and>
       (\<forall>j. 0 < j \<and> j < ?hs + 1 \<longrightarrow> ent R2 r j = ent D2 r j / real ?m + ent T2 r j * l / real ?m)"
    by auto
  from regularize_ok [OF D1 T1 c1, of 0 ?m] S1 have sS1: "shaped ?hs (?i + 1) S1"
    and eS1: "\<forall>r<?hs. ent S1 r 0 = ent D1 r 0 / real ?m \<and>
       (\<forall>j. 0 < j \<and> j < ?i + 1 \<longrightarrow> ent S1 r j = ent D1 r j / real ?m)"
    by auto
  from regularize_ok [OF D2 T2 c2, of 0 ?m] S2 have sS2: "shaped ?nl (?hs + 1) S2"
    and eS2: "\<forall>r<?nl. ent S2 r 0 = ent D2 r 0 / real ?m \<and>
       (\<forall>j. 0 < j \<and> j < ?hs + 1 \<longrightarrow> ent S2 r j = ent D2 r j / real ?m)"
    by auto
  have g: "reshape_theta self (flatten R1 R2) = Inr (R1, R2)"
    by (rule reshape_theta_flatten [OF sR1 sR2])
  have g0: "reshape_theta self (flatten S1 S2) = Inr (S1, S2)"
    by (rule reshape_theta_flatten [OF sS1 sS2])
  have b1: "\<forall>r<?hs. ent R1 r 0 = ent S1 r 0 \<and>
        (\<forall>c. 0 < c \<and> c < ?i + 1 \<longrightarrow> ent R1 r c = ent S1 r c + l / real ?m * ent T1 r c)"
    using eR1 eS1 by (simp add: mult.commute)
  have b2: "\<forall>r<?nl. ent R2 r 0 = ent S2 r 0 \<and>
        (\<forall>c. 0 < c \<and> c < ?hs + 1 \<longrightarrow> ent R2 r c = ent S2 r c + l / real ?m * ent T2 r c)"
    using eR2 eS2 by (simp add: mult.commute)
  show ?thesis
    by (intro exI conjI) (rule fl, rule f0, rule g, rule g0, rule rt, rule b1, rule b2)
qed

section \<open>What one pass does to the instance\<close>

lemma fit_state:
  "snd (fit self ps X y out) = self \<or>
   (out \<and> (\<exists>J. snd (fit self ps X y out) = self\<lparr>writer := writer self @ [WCost J]\<rparr>))"
  by (cases out) (auto simp: fit_def Let_def split: sum.splits prod.splits)

text \<open>
  Claim C10. A call of \<open>fit\<close> leaves \<^verbatim>\<open>self.params\<close>, \<^verbatim>\<open>self.X\<close>, \<^verbatim>\<open>self.Y\<close>,
  \<^verbatim>\<open>self.lam\<close> and the architecture sizes as they were: the instance after the call is
  the instance before it, up to what the writer has been given. For correctly shaped
  arguments the call returns a cost and a gradient, the writer is given the cost when
  \<open>output\<close> is set and nothing otherwise, and the returned pair is the same for every
  instance with the same \<open>lam\<close> and sizes and for either value of \<open>output\<close>.
\<close>

theorem fit_leaves_instance:
  "(params (snd (fit self ps X y out)) = params self \<and>
    net_X (snd (fit self ps X y out)) = net_X self \<and>
    net_Y (snd (fit self ps X y out)) = net_Y self \<and>
    lam (snd (fit self ps X y out)) = lam self \<and>
    input_size (snd (fit self ps X y out)) = input_size self \<and>
    hidden_size (snd (fit self ps X y out)) = hidden_size self \<and>
    num_labels (snd (fit self ps X y out)) = num_labels self \<and>
    (snd (fit self ps X y out))\<lparr>writer := writer self\<rparr> = self) \<and>
   (well_shaped self ps X y \<longrightarrow>
      (\<exists>J g. fit self ps X y out =
                (Inr (J, g), if out then self\<lparr>writer := writer self @ [WCost J]\<rparr> else self) \<and>
         (\<forall>s out'. same_sizes s self \<and> lam s = lam self \<longrightarrow>
            fst (fit s ps X y out') = Inr (J, g))))"
proof (intro conjI impI)
  assume ws: "well_shaped self ps X y"
  let ?m = "nrows X"
  obtain T1 T2 c D1 D2 where
    tr: "\<forall>s out. same_sizes s self \<longrightarrow>
           (\<exists>R1 R2. regularize (lam s) ?m D1 T1 = Inr R1 \<and>
              regularize (lam s) ?m D2 T2 = Inr R2 \<and>
              fit s ps X y out =
                (Inr (fv_add (fv_div_nat c ?m) (Fin (reg_cost (lam s) ?m T1 T2)), flatten R1 R2),
                 if out
                 then s\<lparr>writer := writer s @
                        [WCost (fv_add (fv_div_nat c ?m) (Fin (reg_cost (lam s) ?m T1 T2)))]\<rparr>
                 else s))"
    using fit_trace [OF ws] .
  define J where "J = fv_add (fv_div_nat c ?m) (Fin (reg_cost (lam self) ?m T1 T2))"
  have self: "same_sizes self self"
    by (simp add: same_sizes_def)
  from tr [rule_format, OF self, of out] obtain R1 R2 where
    R1: "regularize (lam self) ?m D1 T1 = Inr R1" and R2: "regularize (lam self) ?m D2 T2 = Inr R2"
    and f: "fit self ps X y out =
              (Inr (J, flatten R1 R2), if out then self\<lparr>writer := writer self @ [WCost J]\<rparr> else self)"
    unfolding J_def by blast
  have "fst (fit s ps X y out') = Inr (J, flatten R1 R2)"
    if "same_sizes s self \<and> lam s = lam self" for s out'
  proof -
    from that have ss: "same_sizes s self" and l: "lam s = lam self" by simp_all
    from tr [rule_format, OF ss, of out'] obtain R1' R2' where
      "regularize (lam self) ?m D1 T1 = Inr R1'" "regularize (lam self) ?m D2 T2 = Inr R2'"
      "fst (fit s ps X y out') = Inr (J, flatten R1' R2')"
      unfolding J_def l by (elim exE conjE) simp
    with R1 R2 show ?thesis by simp
  qed
  with f show "\<exists>J g. fit self ps X y out =
                (Inr (J, g), if out then self\<lparr>writer := writer self @ [WCost J]\<rparr> else self) \<and>
         (\<forall>s out'. same_sizes s self \<and> lam s = lam self \<longrightarrow>
            fst (fit s ps X y out') = Inr (J, g))"
    by blast
qed (use fit_state [of self ps X y out] in auto)

section \<open>The two claims about one pass, on the small instance\<close>

lemma example_net_well_shaped:
  "well_shaped example_net (params example_net) (Mat 1 [[1]]) (Mat 2 [[1, 0]])"
  by (simp add: well_shaped_def example_net_def params_size_def wf_mat_def nrows_def)

theorem regularization_excludes_bias_witness:
  "\<exists>J J0 g g0 G1 G2 H1 H2 T1 T2.
     fst (fit (example_net\<lparr>lam := 2\<rparr>) (params example_net) (Mat 1 [[1]]) (Mat 2 [[1, 0]]) False) =
       Inr (J, g) \<and>
     fst (fit (example_net\<lparr>lam := 0\<rparr>) (params example_net) (Mat 1 [[1]]) (Mat 2 [[1, 0]]) False) =
       Inr (J0, g0) \<and>
     reshape_theta example_net g = Inr (G1, G2) \<and>
     reshape_theta example_net g0 = Inr (H1, H2) \<and>
     reshape_theta example_net (params example_net) = Inr (T1, T2) \<and>
     ent G1 0 0 = ent H1 0 0 \<and> ent G1 0 1 = ent H1 0 1 + 2 * ent T1 0 1 \<and>
     ent G2 1 0 = ent H2 1 0 \<and> ent G2 1 1 = ent H2 1 1 + 2 * ent T2 1 1"
proof -
  have sz: "hidden_size example_net = 1" "input_size example_net = 1" "num_labels example_net = 2"
    by (simp_all add: example_net_def)
  have m: "real (nrows (Mat 1 [[1::real]])) = 1"
    by (simp add: nrows_def)
  from regularization_excludes_bias [OF example_net_well_shaped, of 2 False, unfolded sz m]
  obtain J J0 g g0 G1 G2 H1 H2 T1 T2 where
    f: "fst (fit (example_net\<lparr>lam := 2\<rparr>) (params example_net) (Mat 1 [[1]]) (Mat 2 [[1, 0]]) False) =
       Inr (J, g)"
     "fst (fit (example_net\<lparr>lam := 0\<rparr>) (params example_net) (Mat 1 [[1]]) (Mat 2 [[1, 0]]) False) =
       Inr (J0, g0)"
     "reshape_theta example_net g = Inr (G1, G2)"
     "reshape_theta example_net g0 = Inr (H1, H2)"
     "reshape_theta example_net (params example_net) = Inr (T1, T2)"
    and b1: "\<forall>r<1. ent G1 r 0 = ent H1 r 0 \<and>
        (\<forall>c. 0 < c \<and> c < 1 + 1 \<longrightarrow> ent G1 r c = ent H1 r c + 2 / 1 * ent T1 r c)"
    and b2: "\<forall>r<2. ent G2 r 0 = ent H2 r 0 \<and>
        (\<forall>c. 0 < c \<and> c < 1 + 1 \<longrightarrow> ent G2 r c = ent H2 r c + 2 / 1 * ent T2 r c)"
    by (elim exE conjE) (rule that; assumption)
  from b1 have "ent G1 0 0 = ent H1 0 0" "ent G1 0 1 = ent H1 0 1 + 2 * ent T1 0 1"
    by simp_all
  moreover from b2 have "ent G2 1 0 = ent H2 1 0" "ent G2 1 1 = ent H2 1 1 + 2 * ent T2 1 1"
    by simp_all
  ultimately show ?thesis
    using f by blast
qed


theorem fit_leaves_instance_witness:
  "\<exists>J g.
     fit example_net (params example_net) (Mat 1 [[1]]) (Mat 2 [[1, 0]]) True =
       (Inr (J, g), example_net\<lparr>writer := [WCost J]\<rparr>) \<and>
     fit example_net (params example_net) (Mat 1 [[1]]) (Mat 2 [[1, 0]]) False =
       (Inr (J, g), example_net) \<and>
     fst (fit (example_net\<lparr>params := [], writer := [WMsg ''started'']\<rparr>) (params example_net)
            (Mat 1 [[1]]) (Mat 2 [[1, 0]]) False) = Inr (J, g)"
proof -
  let ?s = "example_net\<lparr>params := [], writer := [WMsg ''started'']\<rparr>"
  let ?X = "Mat 1 [[1::real]]" and ?y = "Mat 2 [[1, 0::real]]"
  have w: "writer example_net = []"
    by (simp add: example_net_def)
  have ss: "same_sizes ?s example_net \<and> lam ?s = lam example_net"
    and se: "same_sizes example_net example_net \<and> lam example_net = lam example_net"
    by (simp_all add: same_sizes_def)
  note t = fit_leaves_instance [of example_net "params example_net" ?X ?y True,
      THEN conjunct2, THEN mp, OF example_net_well_shaped]
  note u = fit_leaves_instance [of example_net "params example_net" ?X ?y False,
      THEN conjunct2, THEN mp, OF example_net_well_shaped]
  from t obtain J g where
    f: "fit example_net (params example_net) ?X ?y True =
       (Inr (J, g),
        if True then example_net\<lparr>writer := writer example_net @ [WCost J]\<rparr> else example_net)"
    and d: "\<forall>s out'. same_sizes s example_net \<and> lam s = lam example_net \<longrightarrow>
            fst (fit s (params example_net) ?X ?y out') = Inr (J, g)"
    by (elim exE conjE) (rule that; assumption)
  from u obtain J' g' where
    f': "fit example_net (params example_net) ?X ?y False =
       (Inr (J', g'),
        if False then example_net\<lparr>writer := writer example_net @ [WCost J']\<rparr> else example_net)"
    by (elim exE conjE) (rule that; assumption)
  have 1: "fit example_net (params example_net) ?X ?y True =
       (Inr (J, g), example_net\<lparr>writer := [WCost J]\<rparr>)"
    using f by (simp add: w)
  have "fst (fit example_net (params example_net) ?X ?y False) = Inr (J, g)"
    using d [rule_format, OF se] .
  with f' have 2: "fit example_net (params example_net) ?X ?y False = (Inr (J, g), example_net)"
    by simp
  have 3: "fst (fit ?s (params example_net) ?X ?y False) = Inr (J, g)"
    using d [rule_format, OF ss] .
  show ?thesis
    by (intro exI conjI) (rule 1, rule 2, rule 3)
qed

section \<open>Training\<close>









end
